theory Spec2Isabelle
  imports Main
begin

section \<open>osbs-box: the orchestration script as a state-passing model\<close>

text \<open>
  The script \<^verbatim>\<open>osbs-box.py\<close> is a sequence of calls to external tools. Every function
  of the script is embedded as a function from the world before the call to an outcome
  and the world after it. The world records, in order, what the script did to its
  surroundings (lines printed, processes launched, sleeps, files written); an
  environment, which no function changes, says how the surroundings answer.

  Modelling conventions:
  \<^item> bytes are a \<open>string\<close>, and a text (a Python \<^verbatim>\<open>str\<close>) is the \<open>string\<close> of its
    UTF-8 encoding: \<^verbatim>\<open>bytes.decode('utf-8')\<close> raises on bytes that are not well-formed
    UTF-8 and is the identity on the others; equality, concatenation, prefix and substring
    tests on texts are those on their encodings;
  \<^item> the external tools can be launched (\<^verbatim>\<open>Popen\<close> itself does not raise), and
    \<^verbatim>\<open>print\<close> accepts every text;
  \<^item> a call that never comes back (a process that never closes its output or never
    exits) is the outcome \<open>Hangs\<close>;
  \<^item> the configuration file, when it exists, holds a YAML document and can be rewritten:
    \<^verbatim>\<open>yaml.safe_load\<close> and \<^verbatim>\<open>yaml.safe_dump\<close> are taken on documents, not on bytes.
\<close>

subsection \<open>Exceptions, outcomes, events\<close>

datatype exc =
    RuntimeError "string list"    \<comment> \<open>the arguments the exception was built from\<close>
  | CalledProcessError int "string list"
  | AssertionError
  | AttributeError
  | TypeError
  | KeyError string
  | FileNotFoundError string
  | UnicodeDecodeError string     \<comment> \<open>the bytes that could not be decoded\<close>

datatype 'a result = Returns 'a | Raises exc | Hangs

datatype event =
    Print string              \<comment> \<open>one call of \<^verbatim>\<open>print\<close>\<close>
  | Shell string              \<comment> \<open>\<^verbatim>\<open>Popen(cmd, shell=True)\<close>\<close>
  | Exec "string list"        \<comment> \<open>\<^verbatim>\<open>Popen(argv)\<close> or \<^verbatim>\<open>check_call(argv)\<close>\<close>
  | Sleep nat                 \<comment> \<open>\<^verbatim>\<open>sleep(n)\<close>\<close>
  | Write string              \<comment> \<open>a file opened for writing and rewritten\<close>

subsection \<open>YAML documents\<close>

text \<open>
  What \<^verbatim>\<open>yaml.safe_load\<close> returns: scalars, lists and dictionaries with string keys
  (the keys of \<^verbatim>\<open>master-config.yaml\<close>), without shared nodes. A dictionary is an
  association list in insertion order; lookup takes the first binding of a key.
\<close>

datatype yaml =
    YNull
  | YBool bool
  | YInt int
  | YStr string
  | YSeq "yaml list"
  | YMap "(string \<times> yaml) list"

subsection \<open>External processes, environment and world\<close>

text \<open>
  A launched process as the script can observe it: the lines \<^verbatim>\<open>readline\<close> returns one
  after the other, whether end-of-output follows them (otherwise the next
  \<^verbatim>\<open>readline\<close> blocks for ever), what the \<open>k\<close>-th call of \<^verbatim>\<open>poll\<close> returns
  (\<open>None\<close> while the process runs), and the exit status \<^verbatim>\<open>wait\<close> yields
  (\<open>None\<close> if the process never exits).
\<close>

record proc =
  out_lines :: "string list"
  closes :: bool
  polls :: "nat \<Rightarrow> int option"
  exitcode :: "int option"

text \<open>
  The environment: the behaviour of the \<open>k\<close>-th process the script launches, the name
  \<^verbatim>\<open>dir_path\<close> computed from the script's location, \<^verbatim>\<open>os.path.abspath\<close>,
  \<^verbatim>\<open>os.path.exists\<close>, and the table of the Python runtime that says which characters
  beyond ASCII (given by their encodings) are decimal digits.
\<close>

record env =
  procs :: "nat \<Rightarrow> proc"
  dir_path :: string
  abspath :: "string \<Rightarrow> string"
  path_exists :: "string \<Rightarrow> bool"
  decimal :: "string \<Rightarrow> bool"

record world =
  trace :: "event list"
  launched :: nat
  files :: "string \<rightharpoonup> yaml"

type_synonym 'a action = "world \<Rightarrow> 'a result \<times> world"

definition emit :: "event \<Rightarrow> world \<Rightarrow> world" where
  "emit e w = w\<lparr>trace := trace w @ [e]\<rparr>"

definition launch :: "event \<Rightarrow> world \<Rightarrow> world" where
  "launch e w = w\<lparr>trace := trace w @ [e], launched := Suc (launched w)\<rparr>"

definition ret :: "'a \<Rightarrow> 'a action" where
  "ret x w = (Returns x, w)"

definition raise :: "exc \<Rightarrow> 'a action" where
  "raise e w = (Raises e, w)"

definition bind_act :: "'a action \<Rightarrow> ('a \<Rightarrow> 'b action) \<Rightarrow> 'b action" where
  "bind_act m f w =
     (case m w of
        (Returns x, w') \<Rightarrow> f x w'
      | (Raises e, w') \<Rightarrow> (Raises e, w')
      | (Hangs, w') \<Rightarrow> (Hangs, w'))"

definition then_act :: "'a action \<Rightarrow> 'b action \<Rightarrow> 'b action" where
  "then_act m n = bind_act m (\<lambda>_. n)"

definition print :: "string \<Rightarrow> unit action" where
  "print s w = (Returns (), emit (Print s) w)"

definition sleep :: "nat \<Rightarrow> unit action" where
  "sleep n w = (Returns (), emit (Sleep n) w)"

subsection \<open>Strings\<close>

definition newline :: char where
  "newline = CHR 0x0A"

fun join :: "string \<Rightarrow> string list \<Rightarrow> string" where
  "join sep [] = []"
| "join sep [x] = x"
| "join sep (x # y # ys) = x @ sep @ join sep (y # ys)"

text \<open>
  Well-formed UTF-8: a byte below 0x80; a lead byte 0xC2 to 0xDF with one continuation byte
  (0x80 to 0xBF); a lead byte 0xE0 to 0xEF with two; a lead byte 0xF0 to 0xF4 with three,
  where the byte after 0xE0, 0xED, 0xF0, 0xF4 is restricted so that no encoding is longer
  than needed, none is a surrogate and none lies beyond U+10FFFF.
\<close>

definition byte :: "char \<Rightarrow> nat" where
  "byte c = of_char c"

definition continuation :: "char \<Rightarrow> bool" where
  "continuation c = (0x80 \<le> byte c \<and> byte c \<le> 0xBF)"

definition second_of_three :: "nat \<Rightarrow> char \<Rightarrow> bool" where
  "second_of_three b c =
     (if b = 0xE0 then 0xA0 \<le> byte c \<and> byte c \<le> 0xBF
      else if b = 0xED then 0x80 \<le> byte c \<and> byte c \<le> 0x9F
      else continuation c)"

definition second_of_four :: "nat \<Rightarrow> char \<Rightarrow> bool" where
  "second_of_four b c =
     (if b = 0xF0 then 0x90 \<le> byte c \<and> byte c \<le> 0xBF
      else if b = 0xF4 then 0x80 \<le> byte c \<and> byte c \<le> 0x8F
      else continuation c)"

fun utf8 :: "string \<Rightarrow> bool" where
  "utf8 [] = True"
| "utf8 (c # cs) =
     (if byte c < 0x80 then utf8 cs
      else if 0xC2 \<le> byte c \<and> byte c \<le> 0xDF then
        (case cs of
           c1 # r \<Rightarrow> continuation c1 \<and> utf8 r
         | _ \<Rightarrow> False)
      else if 0xE0 \<le> byte c \<and> byte c \<le> 0xEF then
        (case cs of
           c1 # c2 # r \<Rightarrow> second_of_three (byte c) c1 \<and> continuation c2 \<and> utf8 r
         | _ \<Rightarrow> False)
      else if 0xF0 \<le> byte c \<and> byte c \<le> 0xF4 then
        (case cs of
           c1 # c2 # c3 # r \<Rightarrow>
             second_of_four (byte c) c1 \<and> continuation c2 \<and> continuation c3 \<and> utf8 r
         | _ \<Rightarrow> False)
      else False)"

text \<open>\<^verbatim>\<open>b.decode('utf-8')\<close>.\<close>

definition decode :: "string \<Rightarrow> exc + string" where
  "decode b = (if utf8 b then Inr b else Inl (UnicodeDecodeError b))"

text \<open>\<^verbatim>\<open>bytes.rstrip()\<close> removes the trailing bytes that are ASCII whitespace.\<close>

definition bytes_isspace :: "char \<Rightarrow> bool" where
  "bytes_isspace c = (c \<in> set [CHR 0x20, CHR 0x09, CHR 0x0A, CHR 0x0D, CHR 0x0B, CHR 0x0C])"

definition rstrip :: "string \<Rightarrow> string" where
  "rstrip s = rev (dropWhile bytes_isspace (rev s))"

text \<open>
  \<^verbatim>\<open>str.strip()\<close> removes the whitespace characters at both ends. Those of one byte are
  the ASCII whitespace and the separators FS, GS, RS, US; the others are U+0085, U+00A0,
  U+1680, U+2000 to U+200A, U+2028, U+2029, U+202F, U+205F and U+3000, of two or three
  bytes each.
\<close>

definition str_isspace :: "char \<Rightarrow> bool" where
  "str_isspace c = (bytes_isspace c \<or> c \<in> set [CHR 0x1C, CHR 0x1D, CHR 0x1E, CHR 0x1F])"

definition wide_spaces :: "string list" where
  "wide_spaces =
     [[CHR 0xC2, CHR 0x85], [CHR 0xC2, CHR 0xA0], [CHR 0xE1, CHR 0x9A, CHR 0x80]]
     @ map (\<lambda>b. [CHR 0xE2, CHR 0x80, b])
         [CHR 0x80, CHR 0x81, CHR 0x82, CHR 0x83, CHR 0x84, CHR 0x85, CHR 0x86, CHR 0x87,
          CHR 0x88, CHR 0x89, CHR 0x8A, CHR 0xA8, CHR 0xA9, CHR 0xAF]
     @ [[CHR 0xE2, CHR 0x81, CHR 0x9F], [CHR 0xE3, CHR 0x80, CHR 0x80]]"

text \<open>Removing from the start the one-byte whitespace and the given sequences of two or
  three bytes.\<close>

fun strip_start :: "string list \<Rightarrow> string \<Rightarrow> string" where
  "strip_start wide (a # b # c # rest) =
     (if str_isspace a then strip_start wide (b # c # rest)
      else if [a, b] \<in> set wide then strip_start wide (c # rest)
      else if [a, b, c] \<in> set wide then strip_start wide rest
      else a # b # c # rest)"
| "strip_start wide [a, b] =
     (if str_isspace a then strip_start wide [b]
      else if [a, b] \<in> set wide then []
      else [a, b])"
| "strip_start wide [a] = (if str_isspace a then [] else [a])"
| "strip_start wide [] = []"

definition strip :: "string \<Rightarrow> string" where
  "strip s = rev (strip_start (map rev wide_spaces) (rev (strip_start wide_spaces s)))"

fun startswith :: "string \<Rightarrow> string \<Rightarrow> bool" where
  "startswith s [] = True"
| "startswith [] (p # ps) = False"
| "startswith (c # cs) (p # ps) = (c = p \<and> startswith cs ps)"

text \<open>\<^verbatim>\<open>sub in s\<close> on strings.\<close>

fun str_in :: "string \<Rightarrow> string \<Rightarrow> bool" where
  "str_in sub [] = (sub = [])"
| "str_in sub (c # cs) = (startswith (c # cs) sub \<or> str_in sub cs)"

fun str_nat :: "nat \<Rightarrow> string" where
  "str_nat n = (if n < 10 then [''0123456789'' ! n]
                else str_nat (n div 10) @ [''0123456789'' ! (n mod 10)])"

declare str_nat.simps [simp del]

definition str_int :: "int \<Rightarrow> string" where
  "str_int i = (if i < 0 then CHR ''-'' # str_nat (nat (- i)) else str_nat (nat i))"

subsection \<open>Constants of the script\<close>

definition BASEIMAGE :: string where
  "BASEIMAGE = ''osbs-box''"

definition DIRECTORIES :: "string list" where
  "DIRECTORIES = [''base'', ''client'', ''koji-db'', ''hub'', ''koji-builder'', ''shared-data'']"

definition SERVICES :: "string list" where
  "SERVICES = [''shared-data'', ''koji-db'', ''koji-hub'', ''koji-builder'', ''koji-client'',
               ''skopeo-lite'']"

definition LOCAL_REGISTRY :: string where
  "LOCAL_REGISTRY = ''172.17.0.1:5000''"

definition AUTO_PULL_IMAGES :: "(string \<times> string) list" where
  "AUTO_PULL_IMAGES = [(''registry.fedoraproject.org/fedora:latest'', ''fedora:latest'')]"

subsection \<open>The command runner\<close>

text \<open>The command of \<^verbatim>\<open>_run\<close> is a list of words or a string.\<close>

datatype cmd = CmdList "string list" | CmdStr string

text \<open>
  The read loop of \<^verbatim>\<open>_run\<close>: each line is stripped at its right end and decoded, which
  may raise; it is printed when \<^verbatim>\<open>show_print\<close> is set and added to the output with a
  newline; an empty read ends the loop. \<open>Hangs\<close>: the lines are used up and end-of-output
  never comes.
\<close>

fun read_lines ::
  "bool \<Rightarrow> bool \<Rightarrow> string list \<Rightarrow> string \<Rightarrow> world \<Rightarrow> string result \<times> world" where
  "read_lines show_print eof [] output w = (if eof then Returns output else Hangs, w)"
| "read_lines show_print eof (line # rest) output w =
     (if line \<noteq> [] then
        (case decode (rstrip line) of
           Inl e \<Rightarrow> (Raises e, w)
         | Inr decoded_line \<Rightarrow>
             read_lines show_print eof rest (output @ decoded_line @ [newline])
               (if show_print then emit (Print decoded_line) w else w))
      else (Returns output, w))"

definition cmd_string :: "cmd \<Rightarrow> string" where
  "cmd_string cmd = (case cmd of CmdList xs \<Rightarrow> join '' '' xs | CmdStr s \<Rightarrow> s)"

definition run :: "env \<Rightarrow> cmd \<Rightarrow> bool \<Rightarrow> bool \<Rightarrow> string action" where
  "run E cmd ignore_exitcode show_print w =
     (let c = cmd_string cmd;
          w1 = (if show_print
                then emit (Print (''Running '' @ [CHR 0x27] @ c @ [CHR 0x27])) w else w);
          p = procs E (launched w1);
          w2 = launch (Shell c) w1
      in case read_lines show_print (closes p) (out_lines p) [] w2 of
           (Hangs, w3) \<Rightarrow> (Hangs, w3)
         | (Raises e, w3) \<Rightarrow> (Raises e, w3)
         | (Returns output, w3) \<Rightarrow>
             (case exitcode p of
                None \<Rightarrow> (Hangs, w3)
              | Some returncode \<Rightarrow>
                  if \<not> ignore_exitcode \<and> returncode \<noteq> 0 then
                    (Raises (RuntimeError
                       [''Command '' @ c @ '' failed with exitcode '' @ str_int returncode]),
                     if \<not> show_print then emit (Print output) w3 else w3)
                  else (Returns (strip output), if show_print then emit (Print []) w3 else w3)))"

subsection \<open>The readiness pollers\<close>

text \<open>\<^verbatim>\<open>try: body except CalledProcessError: handler\<close>: only this exception type is caught.\<close>

definition except_CalledProcessError :: "'a action \<Rightarrow> 'a action \<Rightarrow> 'a action" where
  "except_CalledProcessError body handler w =
     (case body w of
        (Raises (CalledProcessError rc argv), w') \<Rightarrow> handler w'
      | (r, w') \<Rightarrow> (r, w'))"

definition inspect_cmd :: "env \<Rightarrow> string \<Rightarrow> cmd" where
  "inspect_cmd E container =
     CmdList [''docker'', ''inspect'',
              ''--format='' @ [CHR 0x27] @ ''{{.State.Running}}'' @ [CHR 0x27],
              dir_path E @ ''_'' @ container @ ''_1'']"

text \<open>
  One pass of the loop body of \<^verbatim>\<open>_wait_until_container_is_up\<close>; the value says whether
  the loop is left by \<^verbatim>\<open>break\<close>.
\<close>

definition container_attempt :: "env \<Rightarrow> cmd \<Rightarrow> bool action" where
  "container_attempt E cmd =
     except_CalledProcessError
       (bind_act (run E cmd False False) (\<lambda>output. ret (output = ''true'')))
       (bind_act (sleep 1) (\<lambda>_. ret False))"

text \<open>\<^verbatim>\<open>for attempts in range(0, 10)\<close>, by the number of attempts left; the value is
  \<^verbatim>\<open>container_is_up\<close>.\<close>

fun container_loop :: "env \<Rightarrow> cmd \<Rightarrow> nat \<Rightarrow> bool action" where
  "container_loop E cmd 0 = ret False"
| "container_loop E cmd (Suc n) =
     bind_act (container_attempt E cmd)
       (\<lambda>container_is_up. if container_is_up then ret True else container_loop E cmd n)"

definition wait_until_container_is_up :: "env \<Rightarrow> string \<Rightarrow> unit action" where
  "wait_until_container_is_up E container =
     bind_act (container_loop E (inspect_cmd E container) 10)
       (\<lambda>container_is_up. if container_is_up then ret () else raise AssertionError)"

text \<open>\<^verbatim>\<open>not process.poll()\<close>: true while the process runs and when it has exited with
  status 0.\<close>

definition not_poll :: "int option \<Rightarrow> bool" where
  "not_poll r = (case r of None \<Rightarrow> True | Some returncode \<Rightarrow> returncode = 0)"

text \<open>
  The loop of \<^verbatim>\<open>_wait_until_string_is_in_logs\<close>, at its \<open>k\<close>-th test with the lines not
  yet read. The value is \<^verbatim>\<open>container_initialized\<close>, \<^verbatim>\<open>container_logs\<close> and the number
  of lines read; \<open>Hangs\<close> when \<^verbatim>\<open>readline\<close> never returns; decoding a line may raise.
\<close>

fun logs_loop ::
  "proc \<Rightarrow> string \<Rightarrow> nat \<Rightarrow> string list \<Rightarrow> string \<Rightarrow> (bool \<times> string \<times> nat) result" where
  "logs_loop p str_to_find k [] container_logs =
     (if \<not> not_poll (polls p k) then Returns (False, container_logs, k)
      else if closes p then Returns (False, container_logs, k)
      else Hangs)"
| "logs_loop p str_to_find k (line # rest) container_logs =
     (if \<not> not_poll (polls p k) then Returns (False, container_logs, k)
      else if line = [] then Returns (False, container_logs, k)
      else
        (case decode line of
           Inl e \<Rightarrow> Raises e
         | Inr decoded_line \<Rightarrow>
             if str_in str_to_find decoded_line
             then Returns (True, container_logs @ decoded_line, Suc k)
             else logs_loop p str_to_find (Suc k) rest (container_logs @ decoded_line)))"

definition wait_until_string_is_in_logs :: "env \<Rightarrow> string \<Rightarrow> string \<Rightarrow> unit action" where
  "wait_until_string_is_in_logs E container str_to_find w =
     (let process = procs E (launched w);
          w1 = launch (Exec [''docker'', ''logs'', ''-f'', container]) w
      in case logs_loop process str_to_find 0 (out_lines process) [] of
           Hangs \<Rightarrow> (Hangs, w1)
         | Raises e \<Rightarrow> (Raises e, w1)
         | Returns (container_initialized, container_logs, n) \<Rightarrow>
             if container_initialized
             then (Returns (), emit (Print (''Container '' @ container @ '' is up'')) w1)
             else (Raises (RuntimeError [''%s failed to start'', container]),
                   emit (Print container_logs) w1))"

text \<open>\<^verbatim>\<open>check_call(argv, stdout=DEVNULL)\<close>: waits for the exit status, returns 0 or raises.\<close>

definition check_call :: "env \<Rightarrow> string list \<Rightarrow> int action" where
  "check_call E argv w =
     (let w1 = launch (Exec argv) w
      in case exitcode (procs E (launched w)) of
           None \<Rightarrow> (Hangs, w1)
         | Some returncode \<Rightarrow>
             if returncode \<noteq> 0 then (Raises (CalledProcessError returncode argv), w1)
             else (Returns 0, w1))"

definition openshift_not_up :: string where
  "openshift_not_up =
     ''OpenShift cluster is not up! See logs for '' @ [CHR 0x22] @ ''origin'' @ [CHR 0x22]
       @ '' container.''"

text \<open>One pass of the loop body of \<^verbatim>\<open>_wait_until_openshift_is_up\<close>; the value says
  whether the function is left by \<^verbatim>\<open>return\<close>.\<close>

definition openshift_attempt :: "env \<Rightarrow> bool action" where
  "openshift_attempt E =
     except_CalledProcessError
       (bind_act (check_call E [''oc'', ''cluster'', ''status'']) (\<lambda>_. ret True))
       (bind_act (sleep 1) (\<lambda>_. ret False))"

fun openshift_loop :: "env \<Rightarrow> nat \<Rightarrow> bool action" where
  "openshift_loop E 0 = ret False"
| "openshift_loop E (Suc n) =
     bind_act (openshift_attempt E)
       (\<lambda>returned. if returned then ret True else openshift_loop E n)"

definition wait_until_openshift_is_up :: "env \<Rightarrow> unit action" where
  "wait_until_openshift_is_up E =
     bind_act (print ''Waiting for OpenShift cluster to be up'')
       (\<lambda>_. bind_act (openshift_loop E 90)
          (\<lambda>returned. if returned then ret () else raise (RuntimeError [openshift_not_up])))"

subsection \<open>Sequences of statements\<close>

definition discard :: "'a action \<Rightarrow> unit action" where
  "discard m = bind_act m (\<lambda>_. ret ())"

fun do_all :: "unit action list \<Rightarrow> unit action" where
  "do_all [] = ret ()"
| "do_all (a # as) = then_act a (do_all as)"

fun for_each :: "'a list \<Rightarrow> ('a \<Rightarrow> unit action) \<Rightarrow> unit action" where
  "for_each [] body = ret ()"
| "for_each (x # xs) body = then_act (body x) (for_each xs body)"

subsection \<open>Tearing down\<close>

definition os_down :: "env \<Rightarrow> unit action" where
  "os_down E = discard (run E (CmdList [''oc'', ''cluster'', ''down'']) True True)"

definition down :: "env \<Rightarrow> bool \<Rightarrow> unit action" where
  "down E delete_volumes =
     do_all [
       print ''osbs-box: down'',
       discard (run E (CmdList ([''docker-compose'', ''down'']
                                 @ (if delete_volumes then [''-v''] else []))) True True),
       os_down E]"

definition cleanup :: "env \<Rightarrow> unit action" where
  "cleanup E = down E True"

subsection \<open>The registry entry in the cluster configuration\<close>

definition config_path :: string where
  "config_path = ''/var/lib/origin/openshift.local.config/master/master-config.yaml''"

text \<open>\<^verbatim>\<open>d.setdefault(key, default)\<close>: the value under the key and the items of the
  dictionary afterwards; only a dictionary has the method.\<close>

definition setdefault ::
  "string \<Rightarrow> yaml \<Rightarrow> yaml \<Rightarrow> exc + (yaml \<times> (string \<times> yaml) list)" where
  "setdefault key dflt d =
     (case d of
        YMap kvs \<Rightarrow>
          (case map_of kvs key of
             Some v \<Rightarrow> Inr (v, kvs)
           | None \<Rightarrow> Inr (dflt, kvs @ [(key, dflt)]))
      | _ \<Rightarrow> Inl AttributeError)"

text \<open>\<^verbatim>\<open>d[key] = v\<close> on the association list of a dictionary.\<close>

fun setitem :: "string \<Rightarrow> yaml \<Rightarrow> (string \<times> yaml) list \<Rightarrow> (string \<times> yaml) list" where
  "setitem key v [] = [(key, v)]"
| "setitem key v ((k, x) # kvs) = (if k = key then (key, v) # kvs else (k, x) # setitem key v kvs)"

text \<open>\<^verbatim>\<open>for registry in registries\<close>: the elements of a list, the keys of a dictionary, the
  characters of a string; nothing else can be iterated.\<close>

definition iterate :: "yaml \<Rightarrow> exc + yaml list" where
  "iterate v =
     (case v of
        YSeq xs \<Rightarrow> Inr xs
      | YMap kvs \<Rightarrow> Inr (map (\<lambda>kv. YStr (fst kv)) kvs)
      | YStr s \<Rightarrow> Inr (map (\<lambda>c. YStr [c]) s)
      | _ \<Rightarrow> Inl TypeError)"

text \<open>\<^verbatim>\<open>registry['domainName']\<close>.\<close>

definition domainName :: "yaml \<Rightarrow> exc + yaml" where
  "domainName registry =
     (case registry of
        YMap kvs \<Rightarrow>
          (case map_of kvs ''domainName'' of
             Some v \<Rightarrow> Inr v
           | None \<Rightarrow> Inl (KeyError ''domainName''))
      | _ \<Rightarrow> Inl TypeError)"

definition hashable :: "yaml \<Rightarrow> bool" where
  "hashable v = (case v of YSeq xs \<Rightarrow> False | YMap kvs \<Rightarrow> False | _ \<Rightarrow> True)"

text \<open>\<^verbatim>\<open>set(registry['domainName'] for registry in registries)\<close>, as the list of its
  elements.\<close>

fun domain_names :: "yaml list \<Rightarrow> exc + yaml list" where
  "domain_names [] = Inr []"
| "domain_names (registry # rest) =
     (case domainName registry of
        Inl e \<Rightarrow> Inl e
      | Inr d \<Rightarrow>
          if hashable d then
            (case domain_names rest of Inl e \<Rightarrow> Inl e | Inr ds \<Rightarrow> Inr (d # ds))
          else Inl TypeError)"

text \<open>\<^verbatim>\<open>registries.append(x)\<close>: only a list has the method.\<close>

definition append_item :: "yaml \<Rightarrow> yaml \<Rightarrow> exc + yaml" where
  "append_item registries x =
     (case registries of YSeq xs \<Rightarrow> Inr (YSeq (xs @ [x])) | _ \<Rightarrow> Inl AttributeError)"

definition local_entry :: yaml where
  "local_entry = YMap [(''domainName'', YStr LOCAL_REGISTRY)]"

text \<open>
  The work of \<^verbatim>\<open>_update_origin_config\<close> on the loaded configuration: \<open>Some\<close> of the
  configuration to write back, or \<open>None\<close> when the local registry is already listed.
  \<^verbatim>\<open>registries\<close> is a reference into \<^verbatim>\<open>config\<close>, so appending to it changes the
  configuration that is dumped.
\<close>

definition patch_config :: "yaml \<Rightarrow> exc + yaml option" where
  "patch_config config =
     (case setdefault ''imagePolicyConfig'' (YMap []) config of
        Inl e \<Rightarrow> Inl e
      | Inr (policy, config_items) \<Rightarrow>
     (case setdefault ''allowedRegistriesForImport'' (YSeq []) policy of
        Inl e \<Rightarrow> Inl e
      | Inr (registries, policy_items) \<Rightarrow>
     (case iterate registries of
        Inl e \<Rightarrow> Inl e
      | Inr entries \<Rightarrow>
     (case domain_names entries of
        Inl e \<Rightarrow> Inl e
      | Inr domains \<Rightarrow>
          if YStr LOCAL_REGISTRY \<notin> set domains then
            (case append_item registries local_entry of
               Inl e \<Rightarrow> Inl e
             | Inr registries1 \<Rightarrow>
                 Inr (Some (YMap (setitem ''imagePolicyConfig''
                    (YMap (setitem ''allowedRegistriesForImport'' registries1 policy_items))
                    config_items))))
          else Inr None))))"

text \<open>The file holds the document; it is read, and rewritten only after the append.\<close>

definition update_origin_config :: "bool action" where
  "update_origin_config w =
     (case files w config_path of
        None \<Rightarrow> (Raises (FileNotFoundError config_path), w)
      | Some config \<Rightarrow>
          (case patch_config config of
             Inl e \<Rightarrow> (Raises e, w)
           | Inr (Some config1) \<Rightarrow>
               (Returns True, (emit (Write config_path) w)\<lparr>files := (files w)(config_path \<mapsto> config1)\<rparr>)
           | Inr None \<Rightarrow> (Returns False, w)))"

subsection \<open>Command-line arguments\<close>

datatype distro = Fedora | Rhel7

definition distro_name :: "distro \<Rightarrow> string" where
  "distro_name d = (case d of Fedora \<Rightarrow> ''fedora'' | Rhel7 \<Rightarrow> ''rhel7'')"

record args =
  no_cleanup :: bool
  force_rebuild :: bool
  updates :: bool
  updates_testing :: bool
  distro :: distro
  repo_url :: "string option"
  ocp_version :: string
  ocp_image :: string
  public_hostname :: "string option"

text \<open>\<^verbatim>\<open>if arg: cmd += words\<close> for an optional string argument: the words are added when
  the argument is neither \<^verbatim>\<open>None\<close> nor empty.\<close>

definition if_given :: "string option \<Rightarrow> (string \<Rightarrow> string list) \<Rightarrow> string list" where
  "if_given a words = (case a of None \<Rightarrow> [] | Some s \<Rightarrow> if s \<noteq> [] then words s else [])"

subsection \<open>Finding the cluster address\<close>

text \<open>
  The pattern \<^verbatim>\<open>https://(\d*.\d*.\d*.\d*):8443\<close> is a sequence of literal characters,
  \<^verbatim>\<open>.\<close> (any character but a newline) and \<^verbatim>\<open>\d*\<close> (decimal digits, as many as
  possible first). A character of the text is a byte that is no continuation byte, with
  the continuation bytes that follow it. The decimal digits are \<^verbatim>\<open>0\<close> to \<^verbatim>\<open>9\<close> and,
  beyond ASCII, those of the table of the runtime.
  \<open>rx_match\<close> gives what is left of the text after the first way of matching the
  pattern at its start, in the order a backtracking matcher tries them.
\<close>

datatype rx = Lit char | AnyChar | Digits

definition isdigit :: "(string \<Rightarrow> bool) \<Rightarrow> string \<Rightarrow> bool" where
  "isdigit table ch = (case ch of [c] \<Rightarrow> c \<in> set ''0123456789'' | _ \<Rightarrow> table ch)"

function rx_match :: "(string \<Rightarrow> bool) \<Rightarrow> rx list \<Rightarrow> string \<Rightarrow> string option" where
  "rx_match table [] s = Some s"
| "rx_match table (Lit c # rs) [] = None"
| "rx_match table (Lit c # rs) (x # xs) = (if x = c then rx_match table rs xs else None)"
| "rx_match table (AnyChar # rs) [] = None"
| "rx_match table (AnyChar # rs) (x # xs) =
     (if x \<noteq> newline then rx_match table rs (dropWhile continuation xs) else None)"
| "rx_match table (Digits # rs) [] = rx_match table rs []"
| "rx_match table (Digits # rs) (x # xs) =
     (if isdigit table (x # takeWhile continuation xs) then
        (case rx_match table (Digits # rs) (dropWhile continuation xs) of
           Some r \<Rightarrow> Some r
         | None \<Rightarrow> rx_match table rs (x # xs))
      else rx_match table rs (x # xs))"
  by pat_completeness auto
termination
  by (relation "measures [\<lambda>(table, rs, s). length s, \<lambda>(table, rs, s). length rs]")
     (auto simp: length_dropWhile_le less_Suc_eq_le)

definition ip_pattern :: "rx list" where
  "ip_pattern = map Lit ''https://''
     @ [Digits, AnyChar, Digits, AnyChar, Digits, AnyChar, Digits]
     @ map Lit '':8443''"

text \<open>\<^verbatim>\<open>re.search(...)\<close> followed by \<^verbatim>\<open>match.group(1)\<close>: the leftmost match; the group
  lies between the 8 bytes of \<^verbatim>\<open>https://\<close> and the 5 of \<^verbatim>\<open>:8443\<close>. A match starts with
  the byte of \<^verbatim>\<open>h\<close>, so none starts inside a character.\<close>

fun search_ip :: "(string \<Rightarrow> bool) \<Rightarrow> string \<Rightarrow> string option" where
  "search_ip table [] = None"
| "search_ip table (c # cs) =
     (case rx_match table ip_pattern (c # cs) of
        Some r \<Rightarrow> Some (take (length (c # cs) - length r - 13) (drop 8 (c # cs)))
      | None \<Rightarrow> search_ip table cs)"

subsection \<open>Starting the cluster\<close>

definition oc_cluster_up :: "args \<Rightarrow> cmd" where
  "oc_cluster_up a =
     CmdList ([''oc'', ''cluster'', ''up'', ''--version'', ocp_version a, ''--image'', ocp_image a]
              @ if_given (public_hostname a) (\<lambda>h. [''--public-hostname'', h]))"

definition os_up :: "env \<Rightarrow> args \<Rightarrow> unit action" where
  "os_up E a =
     bind_act (run E (oc_cluster_up a) False True)
       (\<lambda>output.
          case search_ip (decimal E) output of
            None \<Rightarrow> raise (RuntimeError
                      [''Failed to find openshift IP in output:'' @ [newline] @ output])
          | Some openshift_ip \<Rightarrow>
              do_all [
                bind_act update_origin_config
                  (\<lambda>changed.
                     if changed then
                       do_all [
                         print ''Restarting origin container due to config changes'',
                         discard (run E (CmdList [''docker'', ''restart'', ''origin'']) False True),
                         wait_until_openshift_is_up E]
                     else ret ()),
                discard (run E (CmdList [''oc'', ''login'', ''-u'', ''system:admin'',
                                         ''https://'' @ openshift_ip @ '':8443'']) False True),
                discard (run E (CmdList [''oc'', ''-n'', ''osbs'', ''adm'', ''policy'',
                                         ''add-cluster-role-to-user'', ''cluster-admin'', ''osbs''])
                           False True)])"

subsection \<open>Images\<close>

definition pull_image :: "env \<Rightarrow> string \<Rightarrow> string \<Rightarrow> unit action" where
  "pull_image E source destination_repo =
     (let destination = LOCAL_REGISTRY @ ''/'' @ destination_repo
      in do_all [
           print (''Pulling '' @ source @ '' and pushing it to '' @ destination),
           discard (run E (CmdList [''docker'', ''pull'', source]) False True),
           discard (run E (CmdList [''docker'', ''tag'', source, destination]) False True),
           discard (run E (CmdList [''docker'', ''push'', destination]) False True)])"

definition copy_image :: "env \<Rightarrow> string \<Rightarrow> string \<Rightarrow> unit action" where
  "copy_image E source0 destination_repo =
     (let destination = ''docker://'' @ LOCAL_REGISTRY @ ''/'' @ destination_repo;
          source = (if \<not> startswith source0 ''docker://'' then ''docker://'' @ source0 else source0)
      in do_all [
           print (''Copying '' @ source @ '' to '' @ destination),
           discard (run E (CmdList [''docker'', ''run'', ''--rm'', dir_path E @ ''_skopeo-lite'',
                                    ''copy'', ''--src-tls-verify=false'', ''--dest-tls-verify=false'',
                                    source, destination]) False True)])"

subsection \<open>Bringing the box up\<close>

definition up :: "env \<Rightarrow> args \<Rightarrow> unit action" where
  "up E a =
     do_all [
       (if \<not> no_cleanup a then cleanup E else ret ()),
       print ''osbs-box: up'',
       (if \<not> path_exists E ''ssl'' then
          do_all [print ''Generating certificates'',
                  discard (run E (CmdList [''./generate-certs'']) False True)]
        else print ''Reusing existing certificates''),
       os_up E a,
       for_each DIRECTORIES
         (\<lambda>directory.
            discard (run E (CmdList [''cp'', ''-rvf'',
                       abspath E (join ''/'' [directory, ''Dockerfile.'' @ distro_name (distro a)]),
                       abspath E (join ''/'' [directory, ''Dockerfile''])]) False True)),
       discard (run E (CmdList ([''docker'', ''build'']
                      @ (if force_rebuild a then [''--no-cache''] else [])
                      @ (if updates a then [''--build-arg'', ''UPDATES=1''] else [])
                      @ (if updates_testing a then [''--build-arg'', ''UPDATES_TESTING=1''] else [])
                      @ if_given (repo_url a) (\<lambda>u. [''--build-arg'', ''REPO_URL='' @ u])
                      @ [''-t'', BASEIMAGE @ '':'' @ distro_name (distro a), ''base'']))
                  False True),
       for_each SERVICES
         (\<lambda>service. discard (run E (CmdList [''docker-compose'', ''build'', service]) False True)),
       discard (run E (CmdList [''docker-compose'', ''up'', ''-d'']) False True),
       print ''Waiting for client to come up'',
       wait_until_container_is_up E ''koji-client'',
       wait_until_string_is_in_logs E (dir_path E @ ''_koji-client_1'') ''exec sleep infinity'',
       print ''Checking that other containers are running'',
       wait_until_container_is_up E ''koji-db'',
       wait_until_container_is_up E ''koji-hub'',
       wait_until_container_is_up E ''koji-builder'',
       wait_until_string_is_in_logs E (dir_path E @ ''_koji-builder_1'') ''exec /usr/sbin/init'',
       print ''Automatically populating local registry with images'',
       for_each AUTO_PULL_IMAGES (\<lambda>(source, destination). copy_image E source destination),
       print ''osbs-box is up'',
       print (''make sure registry certificate from ./ssl/certs/domain.crt is copied to ''
              @ ''/etc/docker/certs.d/172.17.0.1:5000/ca.crt'')]"

section \<open>Notions used to state the properties\<close>

subsection \<open>Traces\<close>

text \<open>The commands handed to the shell, in order, and the durations slept.\<close>

fun shell_commands :: "event list \<Rightarrow> string list" where
  "shell_commands [] = []"
| "shell_commands (Shell c # es) = c # shell_commands es"
| "shell_commands (e # es) = shell_commands es"

fun sleeps :: "event list \<Rightarrow> nat list" where
  "sleeps [] = []"
| "sleeps (Sleep n # es) = n # sleeps es"
| "sleeps (e # es) = sleeps es"

fun is_print :: "event \<Rightarrow> bool" where
  "is_print (Print s) = True"
| "is_print e = False"

text \<open>The teardown calls: stopping the compose stack (with or without its volumes) and
  stopping the cluster.\<close>

definition teardown :: "event \<Rightarrow> bool" where
  "teardown e = (e \<in> set [Shell ''docker-compose down'', Shell ''docker-compose down -v'',
                           Shell ''oc cluster down''])"

text \<open>An action adds only events of a given kind to the trace, whatever its outcome.\<close>

definition adds :: "(event \<Rightarrow> bool) \<Rightarrow> 'a action \<Rightarrow> bool" where
  "adds P m = (\<forall>w. \<exists>es. trace (snd (m w)) = trace w @ es \<and> list_all P es)"

text \<open>A kind of events that can exclude shell commands only.\<close>

definition calm :: "(event \<Rightarrow> bool) \<Rightarrow> bool" where
  "calm P = (\<forall>e. (\<forall>c. e \<noteq> Shell c) \<longrightarrow> P e)"

subsection \<open>Processes\<close>

text \<open>Every line that \<^verbatim>\<open>_run\<close> reads from a process can be decoded.\<close>

definition decodable :: "proc \<Rightarrow> bool" where
  "decodable p = list_all (\<lambda>l. utf8 (rstrip l)) (takeWhile (\<lambda>l. l \<noteq> []) (out_lines p))"

text \<open>The output of a process ends, its lines can be decoded, and the process exits with
  the given status.\<close>

definition ends_with :: "proc \<Rightarrow> int \<Rightarrow> bool" where
  "ends_with p rc = (closes p \<and> decodable p \<and> exitcode p = Some rc)"

text \<open>The text \<^verbatim>\<open>_run\<close> has captured when the output of a process has ended: its lines
  up to the first empty read, each stripped at its right end and followed by a newline.\<close>

definition captured :: "proc \<Rightarrow> string" where
  "captured p =
     concat (map (\<lambda>l. rstrip l @ [newline]) (takeWhile (\<lambda>l. l \<noteq> []) (out_lines p)))"

text \<open>An inspection that ends with status 0: the container is reported running or not.\<close>

definition running :: "proc \<Rightarrow> bool" where
  "running p = (ends_with p 0 \<and> strip (captured p) = ''true'')"

definition not_running :: "proc \<Rightarrow> bool" where
  "not_running p = (ends_with p 0 \<and> strip (captured p) \<noteq> ''true'')"

subsection \<open>Configurations\<close>

text \<open>
  The list \<^verbatim>\<open>allowedRegistriesForImport\<close> of a configuration: empty when the list or
  \<^verbatim>\<open>imagePolicyConfig\<close> is absent, undefined when one of them has another shape.
\<close>

definition listed_registries :: "yaml \<Rightarrow> yaml list option" where
  "listed_registries config =
     (case config of
        YMap ckvs \<Rightarrow>
          (case map_of ckvs ''imagePolicyConfig'' of
             None \<Rightarrow> Some []
           | Some (YMap pkvs) \<Rightarrow>
               (case map_of pkvs ''allowedRegistriesForImport'' of
                  None \<Rightarrow> Some []
                | Some (YSeq rs) \<Rightarrow> Some rs
                | Some _ \<Rightarrow> None)
           | Some _ \<Rightarrow> None)
      | _ \<Rightarrow> None)"

text \<open>An entry of the list is a dictionary with a scalar under \<^verbatim>\<open>domainName\<close>; it names
  the local registry when that scalar is the address of the local registry.\<close>

definition registry_location :: "yaml \<Rightarrow> bool" where
  "registry_location r = (case domainName r of Inl e \<Rightarrow> False | Inr d \<Rightarrow> hashable d)"

definition names_local_registry :: "yaml \<Rightarrow> bool" where
  "names_local_registry r = (domainName r = Inr (YStr LOCAL_REGISTRY))"

section \<open>Concrete surroundings\<close>

text \<open>The world before the script has done anything, with no configuration file.\<close>

definition world0 :: world where
  "world0 = \<lparr>trace = [], launched = 0, files = Map.empty\<rparr>"

text \<open>A process that prints the given lines and exits with the given status.\<close>

definition proc_exits :: "string list \<Rightarrow> int \<Rightarrow> proc" where
  "proc_exits ls rc = \<lparr>out_lines = ls, closes = True, polls = (\<lambda>k. None), exitcode = Some rc\<rparr>"

text \<open>The script installed in \<^verbatim>\<open>/srv/osbs-box\<close>, with or without the directory \<^verbatim>\<open>ssl\<close>;
  of the decimal digits beyond ASCII, the table has the Arabic-Indic ones, U+0660 to
  U+0669.\<close>

definition env_with :: "(nat \<Rightarrow> proc) \<Rightarrow> bool \<Rightarrow> env" where
  "env_with ps ssl =
     \<lparr>procs = ps, dir_path = ''osbsbox'',
      abspath = (\<lambda>p. ''/srv/osbs-box/'' @ p),
      path_exists = (\<lambda>p. p = ''ssl'' \<and> ssl),
      decimal = (\<lambda>ch. case ch of
                         [a, b] \<Rightarrow> a = CHR 0xD9 \<and> 0xA0 \<le> byte b \<and> byte b \<le> 0xA9
                       | _ \<Rightarrow> False)\<rparr>"

text \<open>\<^verbatim>\<open>docker inspect\<close> on a container that does not exist yet, and on one that does.\<close>

definition no_such_object :: proc where
  "no_such_object = proc_exits [''Error: No such object: osbsbox_koji-client_1'' @ [newline]] 1"

definition says :: "string \<Rightarrow> proc" where
  "says s = proc_exits [s @ [newline]] 0"

definition inspect_koji_client :: string where
  "inspect_koji_client =
     ''docker inspect --format='' @ [CHR 0x27] @ ''{{.State.Running}}'' @ [CHR 0x27]
       @ '' osbsbox_koji-client_1''"

text \<open>The container appears between the first inspection and the second.\<close>

fun fails_first :: "nat \<Rightarrow> proc" where
  "fails_first 0 = no_such_object"
| "fails_first (Suc k) = says ''true''"

text \<open>\<^verbatim>\<open>docker logs -f\<close> that has printed the awaited line and exited with status 1 before
  it is polled for the first time.\<close>

definition exited_early :: proc where
  "exited_early = \<lparr>out_lines = [''exec sleep infinity'' @ [newline]], closes = True,
                    polls = (\<lambda>k. Some 1), exitcode = Some 1\<rparr>"

text \<open>A cluster configuration with the given list of registries, and the world whose
  configuration file holds a given document.\<close>

definition sample_registries :: "yaml list" where
  "sample_registries =
     [YMap [(''domainName'', YStr ''docker.io'')],
      YMap [(''domainName'', YStr ''*.redhat.com''), (''insecure'', YBool False)]]"

definition sample_config :: "yaml list \<Rightarrow> yaml" where
  "sample_config rs =
     YMap [(''apiVersion'', YStr ''v1''),
           (''imagePolicyConfig'',
              YMap [(''allowedRegistriesForImport'', YSeq rs),
                    (''maxImagesBulkImportedPerRepository'', YInt 5)])]"

definition world_with :: "yaml \<Rightarrow> world" where
  "world_with config = \<lparr>trace = [], launched = 0, files = [config_path \<mapsto> config]\<rparr>"

text \<open>The arguments of \<^verbatim>\<open>up --no-cleanup\<close>, the other options at their defaults; and
  processes of which the first exits with status 0 and the later ones with status 1.\<close>

definition args0 :: args where
  "args0 = \<lparr>no_cleanup = True, force_rebuild = False, updates = False, updates_testing = False,
            distro = Fedora, repo_url = None, ocp_version = ''v3.6.0'',
            ocp_image = ''openshift/origin'', public_hostname = None\<rparr>"

fun first_ok :: "nat \<Rightarrow> proc" where
  "first_ok 0 = proc_exits [] 0"
| "first_ok (Suc k) = proc_exits [] 1"

section \<open>Properties\<close>

subsection \<open>The command runner\<close>

lemma read_lines_eof:
  "list_all (\<lambda>l. utf8 (rstrip l)) (takeWhile (\<lambda>l. l \<noteq> []) ls) \<Longrightarrow>
   fst (read_lines sp True ls out w) =
     Returns (out @ concat (map (\<lambda>l. rstrip l @ [newline]) (takeWhile (\<lambda>l. l \<noteq> []) ls)))"
  by (induction ls arbitrary: out w) (auto simp: decode_def split: if_splits)

text \<open>
  C7 (amended). For a command whose output ends, every line of it being well-formed
  UTF-8, and that exits with status \<open>rc\<close>: if \<open>rc\<close> is not zero and \<^verbatim>\<open>ignore_exitcode\<close> is
  not set, \<^verbatim>\<open>_run\<close> raises a RuntimeError whose message is made of the command string
  and the exit code; if \<^verbatim>\<open>ignore_exitcode\<close> is set, it raises nothing and returns the
  captured output, stripped, whatever the status.
\<close>

theorem run_exitcode:
  assumes "ends_with (procs E (launched w)) rc"
  shows "(\<not> ignore_exitcode \<and> rc \<noteq> 0 \<longrightarrow>
            fst (run E cmd ignore_exitcode show_print w) =
              Raises (RuntimeError
                [''Command '' @ cmd_string cmd @ '' failed with exitcode '' @ str_int rc]))
       \<and> (ignore_exitcode \<longrightarrow>
            fst (run E cmd ignore_exitcode show_print w) =
              Returns (strip (captured (procs E (launched w)))))"
proof -
  let ?w1 = "if show_print
             then emit (Print (''Running '' @ [CHR 0x27] @ cmd_string cmd @ [CHR 0x27])) w else w"
  let ?p = "procs E (launched w)"
  have l: "launched ?w1 = launched w"
    by (simp add: emit_def)
  obtain r w3 where rl:
    "read_lines show_print True (out_lines ?p) [] (launch (Shell (cmd_string cmd)) ?w1) = (r, w3)"
    by (cases "read_lines show_print True (out_lines ?p) [] (launch (Shell (cmd_string cmd)) ?w1)")
  have r: "r = Returns (captured ?p)"
    using read_lines_eof [of "out_lines ?p" show_print "[]" "launch (Shell (cmd_string cmd)) ?w1"]
      rl assms
    by (simp add: captured_def ends_with_def decodable_def)
  show ?thesis
    using assms rl r l by (simp add: run_def Let_def ends_with_def)
qed

theorem run_exitcode_witness:
  "fst (run (env_with (\<lambda>k. proc_exits [''boom'' @ [newline]] 2) True)
          (CmdList [''docker'', ''pull'', ''x'']) False True world0) =
      Raises (RuntimeError [''Command docker pull x failed with exitcode 2''])
   \<and> fst (run (env_with (\<lambda>k. proc_exits [''boom'' @ [newline]] 2) True)
          (CmdList [''docker'', ''pull'', ''x'']) True True world0) = Returns ''boom''"
proof -
  let ?E = "env_with (\<lambda>k. proc_exits [''boom'' @ [newline]] 2) True"
  have p: "procs ?E (launched world0) = proc_exits [''boom'' @ [newline]] 2"
    by (simp add: env_with_def)
  have e: "ends_with (procs ?E (launched world0)) 2"
    unfolding p by code_simp
  have c: "strip (captured (proc_exits [''boom'' @ [newline]] 2)) = ''boom''"
    by code_simp
  from run_exitcode [OF e, of False "CmdList [''docker'', ''pull'', ''x'']" True]
       run_exitcode [OF e, of True "CmdList [''docker'', ''pull'', ''x'']" True]
  show ?thesis
    unfolding p c by (simp add: cmd_string_def str_int_def str_nat.simps)
qed

text \<open>
  C7, as stated, fails: \<^verbatim>\<open>ignore_exitcode\<close> is set, and the command prints a line in
  Latin-1, \<^verbatim>\<open>caf\<close> followed by the byte 0xE9, which is not UTF-8. Decoding the line
  raises UnicodeDecodeError before the exit status is looked at.
\<close>

theorem run_undecodable_output:
  "fst (run (env_with (\<lambda>k. proc_exits [''caf'' @ [CHR 0xE9, newline]] 0) True)
          (CmdList [''docker'', ''logs'', ''x'']) True False world0)
     = Raises (UnicodeDecodeError (''caf'' @ [CHR 0xE9]))"
  by code_simp

subsection \<open>The cluster poller\<close>

lemma sleeps_append: "sleeps (es @ fs) = sleeps es @ sleeps fs"
  by (induction es rule: sleeps.induct) simp_all

lemma sleeps_rounds: "sleeps (concat (replicate n [Exec argv, Sleep d])) = replicate n d"
  by (induction n) simp_all

lemma check_call_ok:
  "exitcode (procs E (launched w)) = Some 0 \<Longrightarrow>
   check_call E argv w = (Returns 0, launch (Exec argv) w)"
  by (simp add: check_call_def Let_def)

lemma check_call_fail:
  "exitcode (procs E (launched w)) = Some rc \<Longrightarrow> rc \<noteq> 0 \<Longrightarrow>
   check_call E argv w = (Raises (CalledProcessError rc argv), launch (Exec argv) w)"
  by (simp add: check_call_def Let_def)

lemma openshift_attempt_ok:
  "exitcode (procs E (launched w)) = Some 0 \<Longrightarrow>
   openshift_attempt E w = (Returns True, launch (Exec [''oc'', ''cluster'', ''status'']) w)"
  by (simp add: openshift_attempt_def except_CalledProcessError_def bind_act_def check_call_ok
        ret_def)

lemma openshift_attempt_fail:
  "exitcode (procs E (launched w)) = Some rc \<Longrightarrow> rc \<noteq> 0 \<Longrightarrow>
   openshift_attempt E w =
     (Returns False, emit (Sleep 1) (launch (Exec [''oc'', ''cluster'', ''status'']) w))"
  by (simp add: openshift_attempt_def except_CalledProcessError_def bind_act_def check_call_fail
        ret_def sleep_def)

lemma openshift_loop_first:
  "0 < n \<Longrightarrow> exitcode (procs E (launched w)) = Some 0 \<Longrightarrow>
   openshift_loop E n w = (Returns True, launch (Exec [''oc'', ''cluster'', ''status'']) w)"
  by (cases n) (simp_all add: bind_act_def openshift_attempt_ok ret_def)

lemma openshift_loop_fail:
  "(\<forall>i<n. \<exists>rc. exitcode (procs E (launched w + i)) = Some rc \<and> rc \<noteq> 0) \<Longrightarrow>
   openshift_loop E n w =
     (Returns False,
      w\<lparr>trace := trace w @ concat (replicate n [Exec [''oc'', ''cluster'', ''status''], Sleep 1]),
        launched := launched w + n\<rparr>)"
proof (induction n arbitrary: w)
  case 0
  then show ?case by (simp add: ret_def)
next
  case (Suc n)
  let ?w1 = "emit (Sleep 1) (launch (Exec [''oc'', ''cluster'', ''status'']) w)"
  from Suc.prems obtain rc where rc: "exitcode (procs E (launched w)) = Some rc" "rc \<noteq> 0"
    by (metis add.right_neutral zero_less_Suc)
  have "\<forall>i<n. \<exists>rc. exitcode (procs E (launched ?w1 + i)) = Some rc \<and> rc \<noteq> 0"
  proof (intro allI impI)
    fix i assume "i < n"
    then have "Suc i < Suc n" by simp
    with Suc.prems have "\<exists>rc. exitcode (procs E (launched w + Suc i)) = Some rc \<and> rc \<noteq> 0"
      by blast
    then show "\<exists>rc. exitcode (procs E (launched ?w1 + i)) = Some rc \<and> rc \<noteq> 0"
      by (simp add: emit_def launch_def)
  qed
  from Suc.IH [OF this] have ih: "openshift_loop E n ?w1 =
     (Returns False,
      ?w1\<lparr>trace := trace ?w1 @ concat (replicate n [Exec [''oc'', ''cluster'', ''status''], Sleep 1]),
          launched := launched ?w1 + n\<rparr>)" .
  have step: "openshift_loop E (Suc n) w = openshift_loop E n ?w1"
    by (simp add: bind_act_def openshift_attempt_fail [OF rc])
  show ?case
    unfolding step ih by (simp add: emit_def launch_def)
qed

text \<open>
  C3. If the first \<^verbatim>\<open>oc cluster status\<close> exits with status 0, the poller prints its
  notice, launches that one process and returns. If each of the first 90 exits with a
  status other than 0, the poller launches exactly 90 processes, sleeps 1 after each of
  them, and raises the RuntimeError whose message names the OpenShift cluster.
\<close>

theorem openshift_poller:
  "(exitcode (procs E (launched w)) = Some 0 \<longrightarrow>
      wait_until_openshift_is_up E w =
        (Returns (),
         w\<lparr>trace := trace w @ [Print ''Waiting for OpenShift cluster to be up'',
                                 Exec [''oc'', ''cluster'', ''status'']],
           launched := launched w + 1\<rparr>))
   \<and> ((\<forall>i<90. \<exists>rc. exitcode (procs E (launched w + i)) = Some rc \<and> rc \<noteq> 0) \<longrightarrow>
      wait_until_openshift_is_up E w =
        (Raises (RuntimeError [openshift_not_up]),
         w\<lparr>trace := trace w @ [Print ''Waiting for OpenShift cluster to be up'']
                      @ concat (replicate 90 [Exec [''oc'', ''cluster'', ''status''], Sleep 1]),
           launched := launched w + 90\<rparr>)
      \<and> str_in ''OpenShift cluster'' openshift_not_up)"
proof (intro conjI impI)
  let ?w1 = "emit (Print ''Waiting for OpenShift cluster to be up'') w"
  have l1: "launched ?w1 = launched w" by (simp add: emit_def)
  {
    assume ok: "exitcode (procs E (launched w)) = Some 0"
    have "openshift_loop E 90 ?w1 =
            (Returns True, launch (Exec [''oc'', ''cluster'', ''status'']) ?w1)"
      by (rule openshift_loop_first) (simp_all add: ok l1)
    then show "wait_until_openshift_is_up E w =
        (Returns (),
         w\<lparr>trace := trace w @ [Print ''Waiting for OpenShift cluster to be up'',
                                 Exec [''oc'', ''cluster'', ''status'']],
           launched := launched w + 1\<rparr>)"
      by (simp add: wait_until_openshift_is_up_def bind_act_def print_def ret_def emit_def
            launch_def)
  }
  {
    assume bad: "\<forall>i<90. \<exists>rc. exitcode (procs E (launched w + i)) = Some rc \<and> rc \<noteq> 0"
    then have "\<forall>i<90. \<exists>rc. exitcode (procs E (launched ?w1 + i)) = Some rc \<and> rc \<noteq> 0"
      by (simp add: l1)
    from openshift_loop_fail [OF this]
    show "wait_until_openshift_is_up E w =
        (Raises (RuntimeError [openshift_not_up]),
         w\<lparr>trace := trace w @ [Print ''Waiting for OpenShift cluster to be up'']
                      @ concat (replicate 90 [Exec [''oc'', ''cluster'', ''status''], Sleep 1]),
           launched := launched w + 90\<rparr>)"
      by (simp add: wait_until_openshift_is_up_def bind_act_def print_def raise_def emit_def)
  }
  show "str_in ''OpenShift cluster'' openshift_not_up"
    by (simp add: openshift_not_up_def)
qed

theorem openshift_poller_witness:
  "fst (wait_until_openshift_is_up (env_with (\<lambda>k. proc_exits [] 0) True) world0) = Returns ()
   \<and> launched (snd (wait_until_openshift_is_up (env_with (\<lambda>k. proc_exits [] 0) True) world0)) = 1
   \<and> fst (wait_until_openshift_is_up (env_with (\<lambda>k. proc_exits [] 1) True) world0)
       = Raises (RuntimeError [openshift_not_up])
   \<and> launched (snd (wait_until_openshift_is_up (env_with (\<lambda>k. proc_exits [] 1) True) world0)) = 90
   \<and> sleeps (trace (snd (wait_until_openshift_is_up (env_with (\<lambda>k. proc_exits [] 1) True) world0)))
       = replicate 90 1"
proof -
  let ?up = "env_with (\<lambda>k. proc_exits [] 0) True"
  let ?down = "env_with (\<lambda>k. proc_exits [] 1) True"
  have "exitcode (procs ?up (launched world0)) = Some 0"
    by (simp add: env_with_def proc_exits_def)
  with openshift_poller [of ?up world0]
  have a: "wait_until_openshift_is_up ?up world0 =
        (Returns (),
         world0\<lparr>trace := trace world0 @ [Print ''Waiting for OpenShift cluster to be up'',
                                 Exec [''oc'', ''cluster'', ''status'']],
           launched := launched world0 + 1\<rparr>)"
    by blast
  have "\<forall>i<90. \<exists>rc. exitcode (procs ?down (launched world0 + i)) = Some rc \<and> rc \<noteq> 0"
    by (simp add: env_with_def proc_exits_def)
  with openshift_poller [of ?down world0]
  have b: "wait_until_openshift_is_up ?down world0 =
        (Raises (RuntimeError [openshift_not_up]),
         world0\<lparr>trace := trace world0 @ [Print ''Waiting for OpenShift cluster to be up'']
                      @ concat (replicate 90 [Exec [''oc'', ''cluster'', ''status''], Sleep 1]),
           launched := launched world0 + 90\<rparr>)"
    by blast
  show ?thesis
    unfolding a b by (simp add: world0_def sleeps_append sleeps_rounds)
qed

subsection \<open>The container poller\<close>

lemma read_lines_silent: "snd (read_lines False eof ls out w) = w"
  by (induction ls arbitrary: out) (simp_all add: decode_def)

lemma run_silent_ok:
  assumes "ends_with (procs E (launched w)) 0"
  shows "run E cmd False False w =
           (Returns (strip (captured (procs E (launched w)))), launch (Shell (cmd_string cmd)) w)"
proof -
  let ?p = "procs E (launched w)"
  let ?w2 = "launch (Shell (cmd_string cmd)) w"
  have "read_lines False True (out_lines ?p) [] ?w2 = (Returns (captured ?p), ?w2)"
    using read_lines_eof [of "out_lines ?p" False "[]" ?w2]
          read_lines_silent [of True "out_lines ?p" "[]" ?w2] assms
    by (simp add: captured_def prod_eq_iff ends_with_def decodable_def)
  then show ?thesis
    using assms by (simp add: run_def Let_def ends_with_def)
qed

lemma run_silent_fail:
  assumes "ends_with (procs E (launched w)) rc" and "rc \<noteq> 0"
  shows "run E cmd False False w =
           (Raises (RuntimeError [''Command '' @ cmd_string cmd @ '' failed with exitcode '' @ str_int rc]),
            emit (Print (captured (procs E (launched w)))) (launch (Shell (cmd_string cmd)) w))"
proof -
  let ?p = "procs E (launched w)"
  let ?w2 = "launch (Shell (cmd_string cmd)) w"
  have "read_lines False True (out_lines ?p) [] ?w2 = (Returns (captured ?p), ?w2)"
    using read_lines_eof [of "out_lines ?p" False "[]" ?w2]
          read_lines_silent [of True "out_lines ?p" "[]" ?w2] assms
    by (simp add: captured_def prod_eq_iff ends_with_def decodable_def)
  then show ?thesis
    using assms by (simp add: run_def Let_def ends_with_def)
qed

lemma container_attempt_ok:
  assumes "ends_with (procs E (launched w)) 0"
  shows "container_attempt E cmd w =
           (Returns (strip (captured (procs E (launched w))) = ''true''),
            launch (Shell (cmd_string cmd)) w)"
  by (simp add: container_attempt_def except_CalledProcessError_def bind_act_def ret_def
        run_silent_ok [OF assms])

lemma container_attempt_fail:
  assumes "ends_with (procs E (launched w)) rc" and "rc \<noteq> 0"
  shows "container_attempt E cmd w =
           (Raises (RuntimeError [''Command '' @ cmd_string cmd @ '' failed with exitcode '' @ str_int rc]),
            emit (Print (captured (procs E (launched w)))) (launch (Shell (cmd_string cmd)) w))"
  by (simp add: container_attempt_def except_CalledProcessError_def bind_act_def ret_def
        run_silent_fail [OF assms])

lemma container_loop_not_running:
  "(\<forall>i<n. not_running (procs E (launched w + i))) \<Longrightarrow>
   container_loop E cmd n w =
     (Returns False,
      w\<lparr>trace := trace w @ replicate n (Shell (cmd_string cmd)), launched := launched w + n\<rparr>)"
proof (induction n arbitrary: w)
  case 0
  then show ?case by (simp add: ret_def)
next
  case (Suc n)
  let ?w1 = "launch (Shell (cmd_string cmd)) w"
  from Suc.prems have p0: "not_running (procs E (launched w))"
    by (metis add.right_neutral zero_less_Suc)
  have "\<forall>i<n. not_running (procs E (launched ?w1 + i))"
  proof (intro allI impI)
    fix i assume "i < n"
    then have "Suc i < Suc n" by simp
    with Suc.prems have "not_running (procs E (launched w + Suc i))" by blast
    then show "not_running (procs E (launched ?w1 + i))" by (simp add: launch_def)
  qed
  from Suc.IH [OF this] have ih: "container_loop E cmd n ?w1 =
     (Returns False,
      ?w1\<lparr>trace := trace ?w1 @ replicate n (Shell (cmd_string cmd)), launched := launched ?w1 + n\<rparr>)" .
  have step: "container_loop E cmd (Suc n) w = container_loop E cmd n ?w1"
    using p0 by (simp add: bind_act_def container_attempt_ok not_running_def)
  show ?case
    unfolding step ih by (simp add: launch_def replicate_append_same)
qed

lemma container_loop_running:
  "j < n \<Longrightarrow> (\<forall>i<j. not_running (procs E (launched w + i))) \<Longrightarrow>
   running (procs E (launched w + j)) \<Longrightarrow>
   container_loop E cmd n w =
     (Returns True,
      w\<lparr>trace := trace w @ replicate (Suc j) (Shell (cmd_string cmd)),
        launched := launched w + Suc j\<rparr>)"
proof (induction n arbitrary: w j)
  case 0
  then show ?case by simp
next
  case (Suc n)
  let ?w1 = "launch (Shell (cmd_string cmd)) w"
  show ?case
  proof (cases j)
    case 0
    with Suc.prems have "running (procs E (launched w))" by simp
    then show ?thesis
      using 0 by (simp add: bind_act_def container_attempt_ok running_def ret_def launch_def)
  next
    case (Suc j')
    with Suc.prems have p0: "not_running (procs E (launched w))"
      by (metis add.right_neutral zero_less_Suc)
    have a: "j' < n" using Suc Suc.prems by simp
    have b: "\<forall>i<j'. not_running (procs E (launched ?w1 + i))"
    proof (intro allI impI)
      fix i assume "i < j'"
      then have "Suc i < j" using Suc by simp
      with Suc.prems have "not_running (procs E (launched w + Suc i))" by blast
      then show "not_running (procs E (launched ?w1 + i))" by (simp add: launch_def)
    qed
    have c: "running (procs E (launched ?w1 + j'))"
      using Suc.prems(3) Suc by (simp add: launch_def)
    from Suc.IH [OF a b c] have ih: "container_loop E cmd n ?w1 =
       (Returns True,
        ?w1\<lparr>trace := trace ?w1 @ replicate (Suc j') (Shell (cmd_string cmd)),
            launched := launched ?w1 + Suc j'\<rparr>)" .
    have step: "container_loop E cmd (Suc n) w = container_loop E cmd n ?w1"
      using p0 by (simp add: bind_act_def container_attempt_ok not_running_def)
    show ?thesis
      unfolding step ih using Suc by (simp add: launch_def replicate_append_same)
  qed
qed


lemma sleeps_shells: "sleeps (replicate n (Shell c)) = []"
  by (induction n) simp_all

lemma shell_commands_append: "shell_commands (es @ fs) = shell_commands es @ shell_commands fs"
  by (induction es rule: shell_commands.induct) simp_all

lemma shell_commands_shells: "shell_commands (replicate n (Shell c)) = replicate n c"
  by (induction n) simp_all

lemma container_poller_zero_exit:
  "(j < 10 \<and> (\<forall>i<j. not_running (procs E (launched w + i)))
      \<and> running (procs E (launched w + j)) \<longrightarrow>
      wait_until_container_is_up E container w =
        (Returns (),
         w\<lparr>trace := trace w @ replicate (Suc j) (Shell (cmd_string (inspect_cmd E container))),
           launched := launched w + Suc j\<rparr>))
   \<and> ((\<forall>i<10. not_running (procs E (launched w + i))) \<longrightarrow>
      wait_until_container_is_up E container w =
        (Raises AssertionError,
         w\<lparr>trace := trace w @ replicate 10 (Shell (cmd_string (inspect_cmd E container))),
           launched := launched w + 10\<rparr>))"
proof (intro conjI impI)
  assume "j < 10 \<and> (\<forall>i<j. not_running (procs E (launched w + i)))
      \<and> running (procs E (launched w + j))"
  then have "container_loop E (inspect_cmd E container) 10 w =
     (Returns True,
      w\<lparr>trace := trace w @ replicate (Suc j) (Shell (cmd_string (inspect_cmd E container))),
        launched := launched w + Suc j\<rparr>)"
    by (intro container_loop_running) simp_all
  then show "wait_until_container_is_up E container w =
        (Returns (),
         w\<lparr>trace := trace w @ replicate (Suc j) (Shell (cmd_string (inspect_cmd E container))),
           launched := launched w + Suc j\<rparr>)"
    by (simp add: wait_until_container_is_up_def bind_act_def ret_def)
next
  assume "\<forall>i<10. not_running (procs E (launched w + i))"
  then have "container_loop E (inspect_cmd E container) 10 w =
     (Returns False,
      w\<lparr>trace := trace w @ replicate 10 (Shell (cmd_string (inspect_cmd E container))),
        launched := launched w + 10\<rparr>)"
    by (rule container_loop_not_running)
  then show "wait_until_container_is_up E container w =
        (Raises AssertionError,
         w\<lparr>trace := trace w @ replicate 10 (Shell (cmd_string (inspect_cmd E container))),
           launched := launched w + 10\<rparr>)"
    by (simp add: wait_until_container_is_up_def bind_act_def raise_def)
qed

text \<open>
  C1. The claim: ten attempts without \<^verbatim>\<open>'true'\<close> end in the assertion. Here every
  \<^verbatim>\<open>docker inspect\<close> exits with status 1 because the container does not exist yet.
  \<^verbatim>\<open>_run\<close> raises RuntimeError, the loop catches CalledProcessError only, so the
  poller is left at the first attempt with the RuntimeError: one command, not ten, and
  no assertion.
\<close>

theorem container_poller_failed_inspect:
  "fst (wait_until_container_is_up (env_with (\<lambda>k. no_such_object) True) ''koji-client'' world0)
     = Raises (RuntimeError [''Command '' @ inspect_koji_client @ '' failed with exitcode 1''])
   \<and> shell_commands (trace (snd (wait_until_container_is_up
         (env_with (\<lambda>k. no_such_object) True) ''koji-client'' world0)))
     = [inspect_koji_client]
   \<and> launched (snd (wait_until_container_is_up
         (env_with (\<lambda>k. no_such_object) True) ''koji-client'' world0)) = 1"
  by code_simp

text \<open>
  C4. The claim: an attempt that does not yield \<^verbatim>\<open>'true'\<close> is followed by a sleep of 1
  and a retry, a failed command included. Here the first \<^verbatim>\<open>docker inspect\<close> fails and
  the second would print \<^verbatim>\<open>true\<close>: the poller raises the RuntimeError of the first
  attempt, without sleeping and without a second attempt. And when all ten attempts
  print \<^verbatim>\<open>false\<close> with status 0, the ten commands follow each other without any sleep.
\<close>

theorem container_poller_no_sleep:
  "fst (wait_until_container_is_up (env_with fails_first True) ''koji-client'' world0)
     = Raises (RuntimeError [''Command '' @ inspect_koji_client @ '' failed with exitcode 1''])
   \<and> sleeps (trace (snd (wait_until_container_is_up (env_with fails_first True)
          ''koji-client'' world0))) = []
   \<and> launched (snd (wait_until_container_is_up (env_with fails_first True)
          ''koji-client'' world0)) = 1
   \<and> fst (wait_until_container_is_up (env_with (\<lambda>k. says ''false'') True) ''koji-client'' world0)
     = Raises AssertionError
   \<and> sleeps (trace (snd (wait_until_container_is_up
          (env_with (\<lambda>k. says ''false'') True) ''koji-client'' world0))) = []
   \<and> launched (snd (wait_until_container_is_up
          (env_with (\<lambda>k. says ''false'') True) ''koji-client'' world0)) = 10"
proof -
  let ?E = "env_with (\<lambda>k. says ''false'') True"
  have first:
    "fst (wait_until_container_is_up (env_with fails_first True) ''koji-client'' world0)
       = Raises (RuntimeError [''Command '' @ inspect_koji_client @ '' failed with exitcode 1''])
     \<and> sleeps (trace (snd (wait_until_container_is_up (env_with fails_first True)
            ''koji-client'' world0))) = []
     \<and> launched (snd (wait_until_container_is_up (env_with fails_first True)
            ''koji-client'' world0)) = 1"
    by code_simp
  have nr: "not_running (says ''false'')"
    by code_simp
  have "\<forall>i<10. not_running (procs ?E (launched world0 + i))"
    by (simp add: env_with_def nr)
  with container_poller_zero_exit [of _ ?E world0 "''koji-client''"]
  have "wait_until_container_is_up ?E ''koji-client'' world0 =
        (Raises AssertionError,
         world0\<lparr>trace := trace world0 @ replicate 10 (Shell (cmd_string (inspect_cmd ?E ''koji-client''))),
           launched := launched world0 + 10\<rparr>)"
    by blast
  then show ?thesis
    using first by (simp add: world0_def sleeps_shells)
qed

subsection \<open>The log poller\<close>

lemma logs_loop_found:
  "0 < N \<Longrightarrow> N \<le> length ls \<Longrightarrow>
   (\<forall>i<N. not_poll (polls p (k + i))) \<Longrightarrow>
   (\<forall>i<N. ls ! i \<noteq> [] \<and> utf8 (ls ! i)) \<Longrightarrow>
   (\<forall>i<N - 1. \<not> str_in target (ls ! i)) \<Longrightarrow>
   str_in target (ls ! (N - 1)) \<Longrightarrow>
   logs_loop p target k ls logs = Returns (True, logs @ concat (take N ls), k + N)"
proof (induction ls arbitrary: N k logs)
  case Nil
  then show ?case by simp
next
  case (Cons line rest)
  from Cons.prems have p0: "not_poll (polls p k)" and l0: "line \<noteq> []" and u0: "utf8 line"
    by force+
  show ?case
  proof (cases "N = 1")
    case True
    with Cons.prems p0 l0 u0 show ?thesis by (simp add: decode_def)
  next
    case False
    with Cons.prems obtain M where N: "N = Suc M" and M: "0 < M"
      by (cases N) auto
    have nf: "\<not> str_in target line"
      using Cons.prems(5) N M by force
    have a: "M \<le> length rest" using Cons.prems(2) N by simp
    have b: "\<forall>i<M. not_poll (polls p (Suc k + i))"
      using Cons.prems(3) N by (metis Suc_less_eq add_Suc_shift)
    have c: "\<forall>i<M. rest ! i \<noteq> [] \<and> utf8 (rest ! i)"
      using Cons.prems(4) N by (metis Suc_less_eq nth_Cons_Suc)
    have d: "\<forall>i<M - 1. \<not> str_in target (rest ! i)"
    proof (intro allI impI)
      fix i assume "i < M - 1"
      then have "Suc i < N - 1" using N by simp
      with Cons.prems(5) have "\<not> str_in target ((line # rest) ! Suc i)" by blast
      then show "\<not> str_in target (rest ! i)" by simp
    qed
    have e: "str_in target (rest ! (M - 1))"
      using Cons.prems(6) N M by (cases M) simp_all
    from Cons.IH [OF M a b c d e, of "logs @ line"]
    show ?thesis using p0 l0 u0 nf N by (simp add: decode_def)
  qed
qed

lemma logs_loop_not_found:
  "closes p \<Longrightarrow> (\<forall>l\<in>set ls. utf8 l \<and> \<not> str_in target l) \<Longrightarrow>
   \<exists>n\<le>length ls. logs_loop p target k ls logs = Returns (False, logs @ concat (take n ls), k + n)
      \<and> ((\<forall>i\<le>length ls. not_poll (polls p (k + i))) \<and> (\<forall>l\<in>set ls. l \<noteq> []) \<longrightarrow> n = length ls)"
proof (induction ls arbitrary: k logs)
  case Nil
  then show ?case by simp
next
  case (Cons line rest)
  show ?case
  proof (cases "not_poll (polls p k) \<and> line \<noteq> []")
    case False
    then have "logs_loop p target k (line # rest) logs = Returns (False, logs @ concat (take 0 (line # rest)), k + 0)"
      by auto
    moreover have "\<not> ((\<forall>i\<le>length (line # rest). not_poll (polls p (k + i))) \<and> (\<forall>l\<in>set (line # rest). l \<noteq> []))"
      using False by (metis add.right_neutral le0 list.set_intros(1))
    ultimately show ?thesis by blast
  next
    case True
    from Cons.prems have nf: "\<not> str_in target line" and u0: "utf8 line"
      and r: "\<forall>l\<in>set rest. utf8 l \<and> \<not> str_in target l"
      by simp_all
    from Cons.IH [OF Cons.prems(1) r, of "Suc k" "logs @ line"]
    obtain n where n: "n \<le> length rest"
      "logs_loop p target (Suc k) rest (logs @ line) = Returns (False, (logs @ line) @ concat (take n rest), Suc k + n)"
      "(\<forall>i\<le>length rest. not_poll (polls p (Suc k + i))) \<and> (\<forall>l\<in>set rest. l \<noteq> []) \<longrightarrow> n = length rest"
      by blast
    have "logs_loop p target k (line # rest) logs = Returns (False, logs @ concat (take (Suc n) (line # rest)), k + Suc n)"
      using True nf u0 n(2) by (simp add: decode_def)
    moreover have "(\<forall>i\<le>length (line # rest). not_poll (polls p (k + i))) \<and> (\<forall>l\<in>set (line # rest). l \<noteq> []) \<longrightarrow> Suc n = length (line # rest)"
    proof
      assume h: "(\<forall>i\<le>length (line # rest). not_poll (polls p (k + i))) \<and> (\<forall>l\<in>set (line # rest). l \<noteq> [])"
      have "\<forall>i\<le>length rest. not_poll (polls p (Suc k + i))"
      proof (intro allI impI)
        fix i assume "i \<le> length rest"
        then have "Suc i \<le> length (line # rest)" by simp
        with h have "not_poll (polls p (k + Suc i))" by blast
        then show "not_poll (polls p (Suc k + i))" by simp
      qed
      with h n(3) show "Suc n = length (line # rest)" by simp
    qed
    moreover have "Suc n \<le> length (line # rest)" using n(1) by simp
    ultimately show ?thesis by blast
  qed
qed

text \<open>
  C2 (amended). If the target first appears in the \<open>N\<close>-th line of the output (no read
  before it is empty, an empty read being the end of the output), each of the first \<open>N\<close>
  lines is well-formed UTF-8, and at each of the first \<open>N\<close> tests of the loop \<^verbatim>\<open>poll()\<close>
  returns \<^verbatim>\<open>None\<close> or 0 (the process runs or has exited with status 0), the poller reads
  exactly \<open>N\<close> lines, prints that the container is up and returns.
\<close>

theorem logs_poller_finds_target:
  assumes "0 < N" and "N \<le> length (out_lines (procs E (launched w)))"
    and "\<forall>i<N. not_poll (polls (procs E (launched w)) i)"
    and "\<forall>i<N. out_lines (procs E (launched w)) ! i \<noteq> []
               \<and> utf8 (out_lines (procs E (launched w)) ! i)"
    and "\<forall>i<N - 1. \<not> str_in target (out_lines (procs E (launched w)) ! i)"
    and "str_in target (out_lines (procs E (launched w)) ! (N - 1))"
  shows "logs_loop (procs E (launched w)) target 0 (out_lines (procs E (launched w))) []
           = Returns (True, concat (take N (out_lines (procs E (launched w)))), N)
       \<and> wait_until_string_is_in_logs E container target w
           = (Returns (),
              w\<lparr>trace := trace w @ [Exec [''docker'', ''logs'', ''-f'', container],
                                      Print (''Container '' @ container @ '' is up'')],
                launched := Suc (launched w)\<rparr>)"
proof -
  have a: "logs_loop (procs E (launched w)) target 0 (out_lines (procs E (launched w))) []
           = Returns (True, [] @ concat (take N (out_lines (procs E (launched w)))), 0 + N)"
    by (rule logs_loop_found) (use assms in simp_all)
  then show ?thesis
    by (simp add: wait_until_string_is_in_logs_def Let_def emit_def launch_def)
qed

theorem logs_poller_finds_target_witness:
  "wait_until_string_is_in_logs
     (env_with (\<lambda>k. proc_exits [''starting'' @ [newline], ''exec sleep infinity'' @ [newline],
                                 ''more'' @ [newline]] 0) True)
     ''osbsbox_koji-client_1'' ''exec sleep infinity'' world0
   = (Returns (),
      world0\<lparr>trace := trace world0 @ [Exec [''docker'', ''logs'', ''-f'', ''osbsbox_koji-client_1''],
                                      Print (''Container '' @ ''osbsbox_koji-client_1'' @ '' is up'')],
             launched := Suc (launched world0)\<rparr>)"
proof -
  let ?E = "env_with (\<lambda>k. proc_exits [''starting'' @ [newline], ''exec sleep infinity'' @ [newline],
                                 ''more'' @ [newline]] 0) True"
  let ?p = "procs ?E (launched world0)"
  have ls: "out_lines ?p = [''starting'' @ [newline], ''exec sleep infinity'' @ [newline],
                            ''more'' @ [newline]]"
    by (simp add: env_with_def proc_exits_def)
  have a: "(0::nat) < 2" by simp
  have b: "2 \<le> length (out_lines ?p)" unfolding ls by simp
  have c: "\<forall>i<2. not_poll (polls ?p i)"
    by (simp add: env_with_def proc_exits_def not_poll_def)
  have d: "\<forall>i<2. out_lines ?p ! i \<noteq> [] \<and> utf8 (out_lines ?p ! i)"
    unfolding ls by (auto simp: less_2_cases_iff byte_def newline_def)
  have e: "\<forall>i<2 - 1. \<not> str_in ''exec sleep infinity'' (out_lines ?p ! i)"
    unfolding ls by (simp add: newline_def)
  have f: "str_in ''exec sleep infinity'' (out_lines ?p ! (2 - 1))"
    unfolding ls by simp
  from logs_poller_finds_target [OF a b c d e f] show ?thesis by blast
qed

text \<open>
  C2, as stated, fails: the target is in the first line, but the process has exited with
  status 1 when the loop tests \<^verbatim>\<open>poll()\<close> for the first time, so no line is read and the
  poller raises.
\<close>

theorem logs_poller_exited_process:
  "str_in ''exec sleep infinity'' (out_lines exited_early ! 0)
   \<and> logs_loop exited_early ''exec sleep infinity'' 0 (out_lines exited_early) []
       = Returns (False, [], 0)
   \<and> fst (wait_until_string_is_in_logs (env_with (\<lambda>k. exited_early) True)
             ''osbsbox_koji-client_1'' ''exec sleep infinity'' world0)
       = Raises (RuntimeError [''%s failed to start'', ''osbsbox_koji-client_1''])"
  by code_simp

text \<open>
  C5 (amended). If the output ends, its lines are well-formed UTF-8 and none contains the
  target, the poller prints the log text it has buffered and raises a RuntimeError that
  carries the container's name. The printed text is that of the lines read; it is the
  whole output when \<^verbatim>\<open>poll()\<close> returns \<^verbatim>\<open>None\<close> or 0 at every test of the loop.
\<close>

theorem logs_poller_end_of_output:
  assumes "closes (procs E (launched w))"
    and "\<forall>l\<in>set (out_lines (procs E (launched w))). utf8 l \<and> \<not> str_in target l"
  shows "\<exists>n args. n \<le> length (out_lines (procs E (launched w)))
       \<and> wait_until_string_is_in_logs E container target w
           = (Raises (RuntimeError args),
              w\<lparr>trace := trace w @ [Exec [''docker'', ''logs'', ''-f'', container],
                                      Print (concat (take n (out_lines (procs E (launched w)))))],
                launched := Suc (launched w)\<rparr>)
       \<and> container \<in> set args
       \<and> ((\<forall>i\<le>length (out_lines (procs E (launched w))). not_poll (polls (procs E (launched w)) i))
            \<and> (\<forall>l\<in>set (out_lines (procs E (launched w))). l \<noteq> [])
           \<longrightarrow> n = length (out_lines (procs E (launched w))))"
proof -
  let ?p = "procs E (launched w)"
  from logs_loop_not_found [OF assms, of 0 "[]"]
  obtain n where n: "n \<le> length (out_lines ?p)"
    "logs_loop ?p target 0 (out_lines ?p) [] = Returns (False, concat (take n (out_lines ?p)), n)"
    "(\<forall>i\<le>length (out_lines ?p). not_poll (polls ?p i)) \<and> (\<forall>l\<in>set (out_lines ?p). l \<noteq> [])
       \<longrightarrow> n = length (out_lines ?p)"
    by auto
  have "wait_until_string_is_in_logs E container target w
           = (Raises (RuntimeError [''%s failed to start'', container]),
              w\<lparr>trace := trace w @ [Exec [''docker'', ''logs'', ''-f'', container],
                                      Print (concat (take n (out_lines ?p)))],
                launched := Suc (launched w)\<rparr>)"
    using n(2) by (simp add: wait_until_string_is_in_logs_def Let_def emit_def launch_def)
  moreover have "container \<in> set [''%s failed to start'', container]" by simp
  ultimately show ?thesis using n(1) n(3) by blast
qed

theorem logs_poller_end_of_output_witness:
  "\<exists>args. wait_until_string_is_in_logs
       (env_with (\<lambda>k. proc_exits [''starting'' @ [newline], ''stopped'' @ [newline]] 0) True)
       ''osbsbox_koji-client_1'' ''exec sleep infinity'' world0
     = (Raises (RuntimeError args),
        world0\<lparr>trace := trace world0 @ [Exec [''docker'', ''logs'', ''-f'', ''osbsbox_koji-client_1''],
                          Print (''starting'' @ [newline] @ ''stopped'' @ [newline])],
               launched := Suc (launched world0)\<rparr>)"
proof -
  let ?E = "env_with (\<lambda>k. proc_exits [''starting'' @ [newline], ''stopped'' @ [newline]] 0) True"
  let ?p = "procs ?E (launched world0)"
  have ls: "out_lines ?p = [''starting'' @ [newline], ''stopped'' @ [newline]]"
    by (simp add: env_with_def proc_exits_def)
  have a: "closes ?p"
    by (simp add: env_with_def proc_exits_def)
  have b: "\<forall>l\<in>set (out_lines ?p). utf8 l \<and> \<not> str_in ''exec sleep infinity'' l"
    unfolding ls by (simp add: newline_def byte_def)
  have c: "(\<forall>i\<le>length (out_lines ?p). not_poll (polls ?p i)) \<and> (\<forall>l\<in>set (out_lines ?p). l \<noteq> [])"
    unfolding ls by (simp add: env_with_def proc_exits_def not_poll_def)
  from logs_poller_end_of_output [OF a b, of "''osbsbox_koji-client_1''"] c
  obtain n args where
    "wait_until_string_is_in_logs ?E ''osbsbox_koji-client_1'' ''exec sleep infinity'' world0
       = (Raises (RuntimeError args),
          world0\<lparr>trace := trace world0 @ [Exec [''docker'', ''logs'', ''-f'', ''osbsbox_koji-client_1''],
                                  Print (concat (take n (out_lines ?p)))],
                 launched := Suc (launched world0)\<rparr>)"
    and "n = length (out_lines ?p)"
    by blast
  then show ?thesis unfolding ls by simp
qed

text \<open>
  C5, as stated, fails: the arguments of the error are the message and the container's
  name; the buffered log text is printed, it is not in the error.
\<close>

theorem logs_poller_error_payload:
  "wait_until_string_is_in_logs (env_with (\<lambda>k. proc_exits [''starting'' @ [newline]] 0) True)
       ''osbsbox_koji-client_1'' ''exec sleep infinity'' world0
     = (Raises (RuntimeError [''%s failed to start'', ''osbsbox_koji-client_1'']),
        world0\<lparr>trace := [Exec [''docker'', ''logs'', ''-f'', ''osbsbox_koji-client_1''],
                          Print (''starting'' @ [newline])],
               launched := 1\<rparr>)
   \<and> \<not> str_in (''starting'' @ [newline]) ''%s failed to start''
   \<and> \<not> str_in (''starting'' @ [newline]) ''osbsbox_koji-client_1''"
  by (simp add: wait_until_string_is_in_logs_def env_with_def proc_exits_def world0_def
        not_poll_def newline_def Let_def emit_def launch_def decode_def byte_def)

subsection \<open>The registry entry\<close>

lemma map_of_setitem: "map_of (setitem k v kvs) = (map_of kvs)(k \<mapsto> v)"
  by (induction kvs) (auto simp: fun_eq_iff)

lemma map_of_snoc_fresh: "map_of kvs k = None \<Longrightarrow> map_of (kvs @ [(k, v)]) = (map_of kvs)(k \<mapsto> v)"
  by (auto simp: fun_eq_iff map_add_def split: option.splits)

lemma domain_names_ok:
  "\<forall>r\<in>set rs. registry_location r \<Longrightarrow>
   \<exists>ds. domain_names rs = Inr ds \<and>
        (YStr LOCAL_REGISTRY \<in> set ds \<longleftrightarrow> (\<exists>r\<in>set rs. names_local_registry r))"
proof (induction rs)
  case Nil
  then show ?case by simp
next
  case (Cons r rs)
  then obtain ds where ds: "domain_names rs = Inr ds"
    "YStr LOCAL_REGISTRY \<in> set ds \<longleftrightarrow> (\<exists>r\<in>set rs. names_local_registry r)"
    by auto
  from Cons.prems obtain d where d: "domainName r = Inr d" "hashable d"
    by (auto simp: registry_location_def split: sum.splits)
  have "domain_names (r # rs) = Inr (d # ds)"
    using d ds by simp
  moreover have "YStr LOCAL_REGISTRY \<in> set (d # ds) \<longleftrightarrow> (\<exists>x\<in>set (r # rs). names_local_registry x)"
    using d ds by (auto simp: names_local_registry_def)
  ultimately show ?case by blast
qed

lemma patch_config_adds:
  assumes "listed_registries config = Some rs"
    and "\<forall>r\<in>set rs. registry_location r"
    and "\<not> (\<exists>r\<in>set rs. names_local_registry r)"
  shows "\<exists>config1. patch_config config = Inr (Some config1)
           \<and> listed_registries config1 = Some (rs @ [local_entry])"
proof -
  from assms(1) obtain ckvs where c: "config = YMap ckvs"
    by (cases config) (simp_all add: listed_registries_def)
  from domain_names_ok [OF assms(2)] assms(3)
  obtain ds where ds: "domain_names rs = Inr ds" "YStr LOCAL_REGISTRY \<notin> set ds"
    by blast
  show ?thesis
  proof (cases "map_of ckvs ''imagePolicyConfig''")
    case None
    with assms(1) c have rs: "rs = []" by (simp add: listed_registries_def)
    show ?thesis
      using None c rs
      by (simp add: patch_config_def setdefault_def iterate_def append_item_def
            listed_registries_def map_of_setitem map_of_snoc_fresh)
  next
    case (Some policy)
    with assms(1) c obtain pkvs where p: "policy = YMap pkvs"
      by (cases policy) (simp_all add: listed_registries_def)
    show ?thesis
    proof (cases "map_of pkvs ''allowedRegistriesForImport''")
      case None
      with assms(1) c Some p have rs: "rs = []" by (simp add: listed_registries_def)
      show ?thesis
        using None Some c p rs
        by (simp add: patch_config_def setdefault_def iterate_def append_item_def
              listed_registries_def map_of_setitem map_of_snoc_fresh)
    next
      case (Some registries)
      with assms(1) c \<open>map_of ckvs ''imagePolicyConfig'' = Some policy\<close> p
      have r: "registries = YSeq rs"
        by (cases registries) (simp_all add: listed_registries_def)
      show ?thesis
        using Some \<open>map_of ckvs ''imagePolicyConfig'' = Some policy\<close> c p r ds
        by (simp add: patch_config_def setdefault_def iterate_def append_item_def
              listed_registries_def map_of_setitem)
    qed
  qed
qed

lemma patch_config_listed:
  assumes "listed_registries config = Some rs"
    and "\<forall>r\<in>set rs. registry_location r"
    and "\<exists>r\<in>set rs. names_local_registry r"
  shows "patch_config config = Inr None"
proof -
  from assms(1) obtain ckvs where c: "config = YMap ckvs"
    by (cases config) (simp_all add: listed_registries_def)
  from domain_names_ok [OF assms(2)] assms(3)
  obtain ds where ds: "domain_names rs = Inr ds" "YStr LOCAL_REGISTRY \<in> set ds"
    by blast
  from assms(3) have ne: "rs \<noteq> []" by auto
  from assms(1) c ne obtain policy where po: "map_of ckvs ''imagePolicyConfig'' = Some policy"
    by (cases "map_of ckvs ''imagePolicyConfig''") (simp_all add: listed_registries_def)
  with assms(1) c obtain pkvs where p: "policy = YMap pkvs"
    by (cases policy) (simp_all add: listed_registries_def)
  from assms(1) c po p ne obtain registries where
    re: "map_of pkvs ''allowedRegistriesForImport'' = Some registries"
    by (cases "map_of pkvs ''allowedRegistriesForImport''") (simp_all add: listed_registries_def)
  with assms(1) c po p have r: "registries = YSeq rs"
    by (cases registries) (simp_all add: listed_registries_def)
  show ?thesis
    using c po p re r ds
    by (simp add: patch_config_def setdefault_def iterate_def)
qed

lemma local_entry_location: "registry_location local_entry \<and> names_local_registry local_entry"
  by (simp add: registry_location_def names_local_registry_def local_entry_def domainName_def
        hashable_def)

text \<open>
  C6. Take a configuration whose list \<^verbatim>\<open>allowedRegistriesForImport\<close> (empty when absent)
  consists of entries with a \<^verbatim>\<open>domainName\<close>, none of them the local registry. Then
  \<^verbatim>\<open>_update_origin_config\<close> writes back a configuration whose list is the old one with
  exactly one entry added at its end, the entry of the local registry, and returns True.
  Applied again to what it has written, it returns False and changes nothing, so the list
  stays the same.
\<close>

theorem update_origin_config_idempotent:
  assumes "files w config_path = Some config"
    and "listed_registries config = Some rs"
    and "\<forall>r\<in>set rs. registry_location r \<and> \<not> names_local_registry r"
  shows "\<exists>config1.
           update_origin_config w =
             (Returns True, (emit (Write config_path) w)\<lparr>files := (files w)(config_path \<mapsto> config1)\<rparr>)
         \<and> listed_registries config1 = Some (rs @ [local_entry])
         \<and> names_local_registry local_entry
         \<and> update_origin_config (snd (update_origin_config w)) =
             (Returns False, snd (update_origin_config w))"
proof -
  from assms(3) have a: "\<forall>r\<in>set rs. registry_location r"
    and b: "\<not> (\<exists>r\<in>set rs. names_local_registry r)"
    by blast+
  from patch_config_adds [OF assms(2) a b]
  obtain config1 where c1: "patch_config config = Inr (Some config1)"
    "listed_registries config1 = Some (rs @ [local_entry])"
    by blast
  let ?w1 = "(emit (Write config_path) w)\<lparr>files := (files w)(config_path \<mapsto> config1)\<rparr>"
  have first: "update_origin_config w = (Returns True, ?w1)"
    using assms(1) c1(1) by (simp add: update_origin_config_def)
  have "\<forall>r\<in>set (rs @ [local_entry]). registry_location r"
    using a local_entry_location by simp
  moreover have "\<exists>r\<in>set (rs @ [local_entry]). names_local_registry r"
    using local_entry_location by simp
  ultimately have "patch_config config1 = Inr None"
    using c1(2) by (rule patch_config_listed [rotated])
  then have second: "update_origin_config ?w1 = (Returns False, ?w1)"
    by (simp add: update_origin_config_def)
  show ?thesis
    using first second c1(2) local_entry_location by auto
qed

theorem update_origin_config_idempotent_witness:
  "\<exists>config1.
     update_origin_config (world_with (sample_config sample_registries)) =
       (Returns True,
        (emit (Write config_path) (world_with (sample_config sample_registries)))
          \<lparr>files := (files (world_with (sample_config sample_registries)))(config_path \<mapsto> config1)\<rparr>)
     \<and> listed_registries config1 = Some (sample_registries @ [local_entry])
     \<and> update_origin_config (snd (update_origin_config (world_with (sample_config sample_registries)))) =
         (Returns False, snd (update_origin_config (world_with (sample_config sample_registries))))"
proof -
  have a: "files (world_with (sample_config sample_registries)) config_path
             = Some (sample_config sample_registries)"
    by (simp add: world_with_def)
  have b: "listed_registries (sample_config sample_registries) = Some sample_registries"
    by (simp add: listed_registries_def sample_config_def)
  have c: "\<forall>r\<in>set sample_registries. registry_location r \<and> \<not> names_local_registry r"
    by (simp add: sample_registries_def registry_location_def names_local_registry_def
          domainName_def hashable_def LOCAL_REGISTRY_def)
  from update_origin_config_idempotent [OF a b c] show ?thesis by blast
qed

text \<open>
  C10. Whenever \<^verbatim>\<open>_update_origin_config\<close> does not return True (it returns False or
  raises), the world after the call is the world before it: no file is written. And for a
  configuration whose list has entries with a \<^verbatim>\<open>domainName\<close>, one of them the local
  registry, the call returns False and leaves the world, the file included, as it was.
\<close>

theorem update_origin_config_writes:
  "(fst (update_origin_config w) \<noteq> Returns True \<longrightarrow> snd (update_origin_config w) = w)
   \<and> (files w config_path = Some config \<and> listed_registries config = Some rs
        \<and> (\<forall>r\<in>set rs. registry_location r) \<and> (\<exists>r\<in>set rs. names_local_registry r)
      \<longrightarrow> update_origin_config w = (Returns False, w))"
proof (intro conjI impI)
  show "snd (update_origin_config w) = w" if "fst (update_origin_config w) \<noteq> Returns True"
    using that by (auto simp: update_origin_config_def split: option.splits sum.splits)
next
  assume h: "files w config_path = Some config \<and> listed_registries config = Some rs
        \<and> (\<forall>r\<in>set rs. registry_location r) \<and> (\<exists>r\<in>set rs. names_local_registry r)"
  then have "patch_config config = Inr None"
    by (intro patch_config_listed [of config rs]) blast+
  with h show "update_origin_config w = (Returns False, w)"
    by (simp add: update_origin_config_def)
qed

theorem update_origin_config_writes_witness:
  "update_origin_config (world_with (sample_config (sample_registries @ [local_entry])))
     = (Returns False, world_with (sample_config (sample_registries @ [local_entry])))
   \<and> fst (update_origin_config world0) = Raises (FileNotFoundError config_path)
   \<and> snd (update_origin_config world0) = world0"
proof -
  let ?c = "sample_config (sample_registries @ [local_entry])"
  have a: "files (world_with ?c) config_path = Some ?c"
    by (simp add: world_with_def)
  have b: "listed_registries ?c = Some (sample_registries @ [local_entry])"
    by (simp add: listed_registries_def sample_config_def)
  have c: "\<forall>r\<in>set (sample_registries @ [local_entry]). registry_location r"
    using local_entry_location
    by (simp add: sample_registries_def registry_location_def domainName_def hashable_def)
  have d: "\<exists>r\<in>set (sample_registries @ [local_entry]). names_local_registry r"
    using local_entry_location by simp
  have e: "fst (update_origin_config world0) = Raises (FileNotFoundError config_path)"
    by (simp add: update_origin_config_def world0_def)
  then have f: "fst (update_origin_config world0) \<noteq> Returns True" by simp
  from update_origin_config_writes [of "world_with ?c" ?c "sample_registries @ [local_entry]"]
       update_origin_config_writes [of world0] a b c d e f
  show ?thesis by blast
qed

subsection \<open>What a command adds to the world\<close>

lemma shell_commands_prints: "list_all is_print es \<Longrightarrow> shell_commands es = []"
  by (induction es rule: shell_commands.induct) simp_all

lemma read_lines_world:
  "\<exists>ps. snd (read_lines sp eof ls out w) = w\<lparr>trace := trace w @ ps\<rparr> \<and> list_all is_print ps"
proof (induction ls arbitrary: out w)
  case Nil
  have "snd (read_lines sp eof [] out w) = w\<lparr>trace := trace w @ []\<rparr> \<and> list_all is_print []"
    by simp
  then show ?case by blast
next
  case (Cons line rest)
  show ?case
  proof (cases "line \<noteq> [] \<and> utf8 (rstrip line)")
    case False
    then have "snd (read_lines sp eof (line # rest) out w) = w\<lparr>trace := trace w @ []\<rparr>
        \<and> list_all is_print []"
      by (auto simp: decode_def)
    then show ?thesis by blast
  next
    case ok: True
    show ?thesis
    proof (cases sp)
      case True
      let ?w1 = "emit (Print (rstrip line)) w"
      from Cons [of "out @ rstrip line @ [newline]" ?w1]
      obtain ps where ps: "snd (read_lines sp eof rest (out @ rstrip line @ [newline]) ?w1)
          = ?w1\<lparr>trace := trace ?w1 @ ps\<rparr>" "list_all is_print ps"
        by blast
      have "snd (read_lines sp eof (line # rest) out w) = w\<lparr>trace := trace w @ (Print (rstrip line) # ps)\<rparr>"
        using True ok ps(1) by (simp add: decode_def emit_def)
      moreover have "list_all is_print (Print (rstrip line) # ps)"
        using ps(2) by simp
      ultimately show ?thesis by blast
    next
      case False
      with ok Cons [of "out @ rstrip line @ [newline]" w] show ?thesis
        by (simp add: decode_def)
    qed
  qed
qed

text \<open>What a call of \<^verbatim>\<open>_run\<close> adds to the trace: prints, the command, prints.\<close>

lemma run_world:
  "\<exists>pre post. snd (run E cmd ig sp w) =
       w\<lparr>trace := trace w @ pre @ [Shell (cmd_string cmd)] @ post, launched := Suc (launched w)\<rparr>
     \<and> list_all is_print pre \<and> list_all is_print post
     \<and> pre = (if sp then [Print (''Running '' @ [CHR 0x27] @ cmd_string cmd @ [CHR 0x27])] else [])"
proof -
  let ?c = "cmd_string cmd"
  let ?pre = "if sp then [Print (''Running '' @ [CHR 0x27] @ ?c @ [CHR 0x27])] else []"
  let ?w1 = "if sp then emit (Print (''Running '' @ [CHR 0x27] @ ?c @ [CHR 0x27])) w else w"
  let ?w2 = "launch (Shell ?c) ?w1"
  let ?p = "procs E (launched ?w1)"
  have w2: "?w2 = w\<lparr>trace := trace w @ ?pre @ [Shell ?c], launched := Suc (launched w)\<rparr>"
    by (simp add: emit_def launch_def)
  obtain r w3 where rl: "read_lines sp (closes ?p) (out_lines ?p) [] ?w2 = (r, w3)"
    by (cases "read_lines sp (closes ?p) (out_lines ?p) [] ?w2")
  from read_lines_world [of sp "closes ?p" "out_lines ?p" "[]" ?w2] rl
  obtain ps where ps: "w3 = ?w2\<lparr>trace := trace ?w2 @ ps\<rparr>" "list_all is_print ps"
    by auto
  have w3: "w3 = w\<lparr>trace := trace w @ ?pre @ [Shell ?c] @ ps, launched := Suc (launched w)\<rparr>"
    unfolding ps(1) w2 by simp
  have "\<exists>post. snd (run E cmd ig sp w) =
          w\<lparr>trace := trace w @ ?pre @ [Shell ?c] @ post, launched := Suc (launched w)\<rparr>
        \<and> list_all is_print post"
  proof (cases r)
    case Hangs
    then have "snd (run E cmd ig sp w) = w3"
      using rl by (simp add: run_def Let_def)
    with w3 ps(2) show ?thesis by blast
  next
    case (Raises e)
    then have "snd (run E cmd ig sp w) = w3"
      using rl by (simp add: run_def Let_def)
    with w3 ps(2) show ?thesis by blast
  next
    case (Returns outp)
    show ?thesis
    proof (cases "exitcode ?p")
      case None
      then have "snd (run E cmd ig sp w) = w3"
        using rl Returns by (simp add: run_def Let_def)
      with w3 ps(2) show ?thesis by blast
    next
      case (Some rc)
      have "snd (run E cmd ig sp w) = w3 \<or> (\<exists>s. snd (run E cmd ig sp w) = emit (Print s) w3)"
        using rl \<open>r = Returns outp\<close> Some by (auto simp: run_def Let_def)
      then show ?thesis
      proof
        assume "snd (run E cmd ig sp w) = w3"
        with w3 ps(2) show ?thesis by blast
      next
        assume "\<exists>s. snd (run E cmd ig sp w) = emit (Print s) w3"
        then obtain s where "snd (run E cmd ig sp w) = emit (Print s) w3" by blast
        then have "snd (run E cmd ig sp w) =
            w\<lparr>trace := trace w @ ?pre @ [Shell ?c] @ (ps @ [Print s]), launched := Suc (launched w)\<rparr>"
          unfolding w3 by (simp add: emit_def)
        moreover have "list_all is_print (ps @ [Print s])" using ps(2) by simp
        ultimately show ?thesis by blast
      qed
    qed
  qed
  then show ?thesis by auto
qed

lemma run_launched: "launched (snd (run E cmd ig sp w)) = Suc (launched w)"
  using run_world [of E cmd ig sp w] by auto

lemma run_files: "files (snd (run E cmd ig sp w)) = files w"
  using run_world [of E cmd ig sp w] by auto

lemma run_shell_commands:
  "shell_commands (trace (snd (run E cmd ig sp w))) = shell_commands (trace w) @ [cmd_string cmd]"
proof -
  from run_world [of E cmd ig sp w] obtain pre post where
    "trace (snd (run E cmd ig sp w)) = trace w @ pre @ [Shell (cmd_string cmd)] @ post"
    "list_all is_print pre" "list_all is_print post"
    by auto
  then show ?thesis
    by (simp add: shell_commands_append shell_commands_prints)
qed

lemma run_result:
  assumes "ends_with (procs E (launched w)) rc"
  shows "fst (run E cmd ig sp w) =
           (if \<not> ig \<and> rc \<noteq> 0
            then Raises (RuntimeError [''Command '' @ cmd_string cmd @ '' failed with exitcode '' @ str_int rc])
            else Returns (strip (captured (procs E (launched w)))))"
proof -
  let ?w1 = "if sp then emit (Print (''Running '' @ [CHR 0x27] @ cmd_string cmd @ [CHR 0x27])) w else w"
  let ?p = "procs E (launched w)"
  have l: "launched ?w1 = launched w" by (simp add: emit_def)
  obtain r w3 where rl:
    "read_lines sp True (out_lines ?p) [] (launch (Shell (cmd_string cmd)) ?w1) = (r, w3)"
    by (cases "read_lines sp True (out_lines ?p) [] (launch (Shell (cmd_string cmd)) ?w1)")
  have r: "r = Returns (captured ?p)"
    using read_lines_eof [of "out_lines ?p" sp "[]" "launch (Shell (cmd_string cmd)) ?w1"] rl assms
    by (simp add: captured_def ends_with_def decodable_def)
  show ?thesis
    using assms rl r l by (simp add: run_def Let_def ends_with_def)
qed


lemma shell_commands_emit_print [simp]:
  "shell_commands (trace (emit (Print s) w)) = shell_commands (trace w)"
  by (simp add: emit_def shell_commands_append)

lemma launched_emit [simp]: "launched (emit e w) = launched w"
  by (simp add: emit_def)

subsection \<open>Pulling an image\<close>

text \<open>
  C9 (amended). \<^verbatim>\<open>_pull_image\<close> hands to the shell \<^verbatim>\<open>docker pull source\<close>, then
  \<^verbatim>\<open>docker tag source destination\<close>, then \<^verbatim>\<open>docker push destination\<close>, where the
  destination is the local registry address, \<^verbatim>\<open>/\<close> and the given repo:tag; each command
  is run only when the one before it has exited with status 0. For commands whose output
  ends, its lines being well-formed UTF-8 (\<open>ends_with\<close>): the commands are these three, in
  this order, when pull and tag exit with status 0; the pull alone when it exits with
  another status, and pull and tag when the tag does. The operation ends with the
  RuntimeError of the first command that exits with another status than 0, and returns
  when there is none.
\<close>

theorem pull_image_commands:
  "(ends_with (procs E (launched w)) 0 \<and> ends_with (procs E (launched w + 1)) 0 \<longrightarrow>
      shell_commands (trace (snd (pull_image E source destination_repo w))) =
        shell_commands (trace w) @
          [''docker pull '' @ source,
           ''docker tag '' @ source @ '' '' @ LOCAL_REGISTRY @ ''/'' @ destination_repo,
           ''docker push '' @ LOCAL_REGISTRY @ ''/'' @ destination_repo])
   \<and> (ends_with (procs E (launched w)) rc \<and> rc \<noteq> 0 \<longrightarrow>
      shell_commands (trace (snd (pull_image E source destination_repo w))) =
        shell_commands (trace w) @ [''docker pull '' @ source]
      \<and> fst (pull_image E source destination_repo w) =
          Raises (RuntimeError [''Command docker pull '' @ source @ '' failed with exitcode ''
                                 @ str_int rc]))
   \<and> (ends_with (procs E (launched w)) 0 \<and> ends_with (procs E (launched w + 1)) rc \<and> rc \<noteq> 0 \<longrightarrow>
      shell_commands (trace (snd (pull_image E source destination_repo w))) =
        shell_commands (trace w) @
          [''docker pull '' @ source,
           ''docker tag '' @ source @ '' '' @ LOCAL_REGISTRY @ ''/'' @ destination_repo]
      \<and> fst (pull_image E source destination_repo w) =
          Raises (RuntimeError [''Command docker tag '' @ source @ '' '' @ LOCAL_REGISTRY @ ''/''
                                 @ destination_repo @ '' failed with exitcode '' @ str_int rc]))
   \<and> (ends_with (procs E (launched w)) 0 \<and> ends_with (procs E (launched w + 1)) 0
        \<and> ends_with (procs E (launched w + 2)) rc \<longrightarrow>
      fst (pull_image E source destination_repo w) =
        (if rc \<noteq> 0
         then Raises (RuntimeError [''Command docker push '' @ LOCAL_REGISTRY @ ''/''
                                     @ destination_repo @ '' failed with exitcode '' @ str_int rc])
         else Returns ()))"
proof -
  let ?dest = "LOCAL_REGISTRY @ ''/'' @ destination_repo"
  let ?c1 = "CmdList [''docker'', ''pull'', source]"
  let ?c2 = "CmdList [''docker'', ''tag'', source, ?dest]"
  let ?c3 = "CmdList [''docker'', ''push'', ?dest]"
  let ?w1 = "emit (Print (''Pulling '' @ source @ '' and pushing it to '' @ ?dest)) w"
  obtain r1 w2 where run1: "run E ?c1 False True ?w1 = (r1, w2)"
    by (cases "run E ?c1 False True ?w1")
  obtain r2 w3 where run2: "run E ?c2 False True w2 = (r2, w3)"
    by (cases "run E ?c2 False True w2")
  obtain r3 w4 where run3: "run E ?c3 False True w3 = (r3, w4)"
    by (cases "run E ?c3 False True w3")
  have l2: "launched w2 = Suc (launched w)"
    using run_launched [of E ?c1 False True ?w1] run1 by simp
  have l3: "launched w3 = Suc (Suc (launched w))"
    using run_launched [of E ?c2 False True w2] run2 l2 by simp
  have s2: "shell_commands (trace w2) = shell_commands (trace w) @ [''docker pull '' @ source]"
    using run_shell_commands [of E ?c1 False True ?w1] run1 by (simp add: cmd_string_def)
  have s3: "shell_commands (trace w3) = shell_commands (trace w2)
              @ [''docker tag '' @ source @ '' '' @ ?dest]"
    using run_shell_commands [of E ?c2 False True w2] run2 by (simp add: cmd_string_def)
  have s4: "shell_commands (trace w4) = shell_commands (trace w3) @ [''docker push '' @ ?dest]"
    using run_shell_commands [of E ?c3 False True w3] run3 by (simp add: cmd_string_def)
  have r1: "r1 = (if rc \<noteq> 0
                  then Raises (RuntimeError [''Command docker pull '' @ source
                                 @ '' failed with exitcode '' @ str_int rc])
                  else Returns (strip (captured (procs E (launched w)))))"
    if "ends_with (procs E (launched w)) rc" for rc
    using run_result [of E ?w1 rc ?c1 False True] that run1 by (simp add: cmd_string_def)
  have r2: "r2 = (if rc \<noteq> 0
                  then Raises (RuntimeError [''Command docker tag '' @ source @ '' '' @ ?dest
                                 @ '' failed with exitcode '' @ str_int rc])
                  else Returns (strip (captured (procs E (launched w + 1)))))"
    if "ends_with (procs E (launched w + 1)) rc" for rc
    using run_result [of E w2 rc ?c2 False True] that run2 l2 by (simp add: cmd_string_def)
  have r3: "r3 = (if rc \<noteq> 0
                  then Raises (RuntimeError [''Command docker push '' @ LOCAL_REGISTRY @ ''/''
                                 @ destination_repo @ '' failed with exitcode '' @ str_int rc])
                  else Returns (strip (captured (procs E (launched w + 2)))))"
    if "ends_with (procs E (launched w + 2)) rc" for rc
    using run_result [of E w3 rc ?c3 False True] that run3 l3 by (simp add: cmd_string_def)
  have unfold: "pull_image E source destination_repo w =
      (case r1 of
         Returns x \<Rightarrow>
           (case r2 of
              Returns y \<Rightarrow>
                (case r3 of Returns z \<Rightarrow> (Returns (), w4) | Raises e \<Rightarrow> (Raises e, w4)
                 | Hangs \<Rightarrow> (Hangs, w4))
            | Raises e \<Rightarrow> (Raises e, w3) | Hangs \<Rightarrow> (Hangs, w3))
       | Raises e \<Rightarrow> (Raises e, w2) | Hangs \<Rightarrow> (Hangs, w2))"
    using run1 run2 run3
    by (simp add: pull_image_def Let_def then_act_def bind_act_def discard_def print_def ret_def
          split: result.splits)
  show ?thesis
  proof (intro conjI impI)
    assume "ends_with (procs E (launched w)) 0 \<and> ends_with (procs E (launched w + 1)) 0"
    then have "r1 = Returns (strip (captured (procs E (launched w))))"
      "r2 = Returns (strip (captured (procs E (launched w + 1))))"
      using r1 [of 0] r2 [of 0] by simp_all
    then show "shell_commands (trace (snd (pull_image E source destination_repo w))) =
        shell_commands (trace w) @
          [''docker pull '' @ source, ''docker tag '' @ source @ '' '' @ ?dest,
           ''docker push '' @ ?dest]"
      unfolding unfold using s2 s3 s4 by (simp split: result.splits)
  next
    assume h: "ends_with (procs E (launched w)) rc \<and> rc \<noteq> 0"
    then have a: "r1 = Raises (RuntimeError [''Command docker pull '' @ source
                                 @ '' failed with exitcode '' @ str_int rc])"
      using r1 [of rc] by simp
    show "shell_commands (trace (snd (pull_image E source destination_repo w))) =
        shell_commands (trace w) @ [''docker pull '' @ source]"
      unfolding unfold using a s2 by simp
    show "fst (pull_image E source destination_repo w) =
          Raises (RuntimeError [''Command docker pull '' @ source @ '' failed with exitcode ''
                                 @ str_int rc])"
      unfolding unfold using a by simp
  next
    assume h: "ends_with (procs E (launched w)) 0 \<and> ends_with (procs E (launched w + 1)) rc
                 \<and> rc \<noteq> 0"
    then have a: "r1 = Returns (strip (captured (procs E (launched w))))"
      and b: "r2 = Raises (RuntimeError [''Command docker tag '' @ source @ '' '' @ ?dest
                                 @ '' failed with exitcode '' @ str_int rc])"
      using r1 [of 0] r2 [of rc] by simp_all
    show "shell_commands (trace (snd (pull_image E source destination_repo w))) =
        shell_commands (trace w) @
          [''docker pull '' @ source, ''docker tag '' @ source @ '' '' @ ?dest]"
      unfolding unfold using a b s2 s3 by simp
    show "fst (pull_image E source destination_repo w) =
          Raises (RuntimeError [''Command docker tag '' @ source @ '' '' @ LOCAL_REGISTRY @ ''/''
                                 @ destination_repo @ '' failed with exitcode '' @ str_int rc])"
      unfolding unfold using a b by simp
  next
    assume h: "ends_with (procs E (launched w)) 0 \<and> ends_with (procs E (launched w + 1)) 0
        \<and> ends_with (procs E (launched w + 2)) rc"
    then have a: "r1 = Returns (strip (captured (procs E (launched w))))"
      and b: "r2 = Returns (strip (captured (procs E (launched w + 1))))"
      using r1 [of 0] r2 [of 0] by simp_all
    from h r3 [of rc] show "fst (pull_image E source destination_repo w) =
        (if rc \<noteq> 0
         then Raises (RuntimeError [''Command docker push '' @ LOCAL_REGISTRY @ ''/''
                                     @ destination_repo @ '' failed with exitcode '' @ str_int rc])
         else Returns ())"
      unfolding unfold using a b by simp
  qed
qed

theorem pull_image_commands_witness:
  "shell_commands (trace (snd (pull_image (env_with (\<lambda>k. proc_exits [] 0) True)
       ''registry.example/foo:1'' ''foo:1'' world0))) =
     [''docker pull registry.example/foo:1'',
      ''docker tag registry.example/foo:1 172.17.0.1:5000/foo:1'',
      ''docker push 172.17.0.1:5000/foo:1'']
   \<and> fst (pull_image (env_with (\<lambda>k. proc_exits [] 0) True)
       ''registry.example/foo:1'' ''foo:1'' world0) = Returns ()
   \<and> fst (pull_image (env_with (\<lambda>k. proc_exits [] (int k + 1)) True)
       ''registry.example/foo:1'' ''foo:1'' world0) =
      Raises (RuntimeError [''Command docker pull registry.example/foo:1 failed with exitcode 1''])
   \<and> fst (pull_image (env_with (\<lambda>k. proc_exits [] (int k)) True)
       ''registry.example/foo:1'' ''foo:1'' world0) =
      Raises (RuntimeError [''Command docker tag registry.example/foo:1 172.17.0.1:5000/foo:1''
                              @ '' failed with exitcode 1''])"
proof -
  let ?ok = "env_with (\<lambda>k. proc_exits [] 0) True"
  let ?bad = "env_with (\<lambda>k. proc_exits [] (int k + 1)) True"
  let ?tag = "env_with (\<lambda>k. proc_exits [] (int k)) True"
  have a: "ends_with (procs ?ok (launched world0)) 0 \<and> ends_with (procs ?ok (launched world0 + 1)) 0"
    by (simp add: ends_with_def decodable_def env_with_def proc_exits_def world0_def)
  have b: "ends_with (procs ?bad (launched world0)) 1 \<and> (1::int) \<noteq> 0"
    by (simp add: ends_with_def decodable_def env_with_def proc_exits_def world0_def)
  have c: "ends_with (procs ?tag (launched world0)) 0 \<and> ends_with (procs ?tag (launched world0 + 1)) 1
             \<and> (1::int) \<noteq> 0"
    by (simp add: ends_with_def decodable_def env_with_def proc_exits_def world0_def)
  from pull_image_commands [where E = ?ok and w = world0 and source = "''registry.example/foo:1''"
         and destination_repo = "''foo:1''"] a
  have "shell_commands (trace (snd (pull_image ?ok ''registry.example/foo:1'' ''foo:1'' world0))) =
        shell_commands (trace world0) @
          [''docker pull '' @ ''registry.example/foo:1'',
           ''docker tag '' @ ''registry.example/foo:1'' @ '' '' @ LOCAL_REGISTRY @ ''/'' @ ''foo:1'',
           ''docker push '' @ LOCAL_REGISTRY @ ''/'' @ ''foo:1'']"
    by blast
  moreover from pull_image_commands [where E = ?bad and w = world0 and rc = 1
         and source = "''registry.example/foo:1''" and destination_repo = "''foo:1''"] b
  have "fst (pull_image ?bad ''registry.example/foo:1'' ''foo:1'' world0) =
          Raises (RuntimeError [''Command docker pull '' @ ''registry.example/foo:1''
                                 @ '' failed with exitcode '' @ str_int 1])"
    by blast
  moreover from pull_image_commands [where E = ?tag and w = world0 and rc = 1
         and source = "''registry.example/foo:1''" and destination_repo = "''foo:1''"] c
  have "fst (pull_image ?tag ''registry.example/foo:1'' ''foo:1'' world0) =
          Raises (RuntimeError [''Command docker tag '' @ ''registry.example/foo:1'' @ '' ''
                                 @ LOCAL_REGISTRY @ ''/'' @ ''foo:1''
                                 @ '' failed with exitcode '' @ str_int 1])"
    by blast
  moreover have "ends_with (procs ?ok (launched world0 + 2)) 0"
    by (simp add: ends_with_def decodable_def env_with_def proc_exits_def world0_def)
  with pull_image_commands [where E = ?ok and w = world0 and rc = 0
         and source = "''registry.example/foo:1''" and destination_repo = "''foo:1''"] a
  have "fst (pull_image ?ok ''registry.example/foo:1'' ''foo:1'' world0) = Returns ()"
    by simp
  ultimately show ?thesis
    by (simp add: world0_def LOCAL_REGISTRY_def str_int_def str_nat.simps)
qed

text \<open>
  C9, as stated, fails: when \<^verbatim>\<open>docker pull\<close> exits with status 1 (the image cannot be
  pulled), the pull is the only command; nothing is tagged or pushed.
\<close>

theorem pull_image_failed_pull:
  "shell_commands (trace (snd (pull_image (env_with (\<lambda>k. proc_exits [] 1) True)
       ''registry.example/foo:1'' ''foo:1'' world0))) =
     [''docker pull registry.example/foo:1'']
   \<and> fst (pull_image (env_with (\<lambda>k. proc_exits [] 1) True)
       ''registry.example/foo:1'' ''foo:1'' world0) =
      Raises (RuntimeError [''Command docker pull registry.example/foo:1 failed with exitcode 1''])"
  by code_simp

subsection \<open>Bringing the box up\<close>

lemma addsI:
  "(\<And>w. \<exists>es. trace (snd (m w)) = trace w @ es \<and> list_all P es) \<Longrightarrow> adds P m"
  by (simp add: adds_def)

lemma addsD: "adds P m \<Longrightarrow> \<exists>es. trace (snd (m w)) = trace w @ es \<and> list_all P es"
  by (simp add: adds_def)

lemma adds_ret: "adds P (ret x)"
  by (rule addsI) (simp add: ret_def)

lemma adds_raise: "adds P (raise e)"
  by (rule addsI) (simp add: raise_def)

lemma adds_print: "calm P \<Longrightarrow> adds P (print s)"
  by (rule addsI) (simp add: print_def emit_def calm_def)

lemma adds_sleep: "calm P \<Longrightarrow> adds P (sleep n)"
  by (rule addsI) (simp add: sleep_def emit_def calm_def)

lemma bind_act_trace:
  assumes "\<And>x. adds P (f x)"
  shows "\<exists>es. trace (snd (bind_act m f w)) = trace (snd (m w)) @ es \<and> list_all P es"
proof (cases "m w")
  case (Pair r w1)
  show ?thesis
  proof (cases r)
    case (Returns x)
    from addsD [OF assms, of x w1] Pair Returns show ?thesis
      by (simp add: bind_act_def)
  next
    case (Raises e)
    with Pair show ?thesis by (simp add: bind_act_def)
  next
    case Hangs
    with Pair show ?thesis by (simp add: bind_act_def)
  qed
qed

lemma adds_bind:
  assumes "adds P m" and "\<And>x. adds P (f x)"
  shows "adds P (bind_act m f)"
proof (rule addsI)
  fix w
  from addsD [OF assms(1), of w] obtain es where es: "trace (snd (m w)) = trace w @ es" "list_all P es"
    by blast
  from bind_act_trace [of P f m w, OF assms(2)] obtain fs where
    fs: "trace (snd (bind_act m f w)) = trace (snd (m w)) @ fs" "list_all P fs"
    by blast
  have "trace (snd (bind_act m f w)) = trace w @ (es @ fs) \<and> list_all P (es @ fs)"
    using es fs by simp
  then show "\<exists>es. trace (snd (bind_act m f w)) = trace w @ es \<and> list_all P es" by blast
qed

lemma adds_then: "adds P m \<Longrightarrow> adds P n \<Longrightarrow> adds P (then_act m n)"
  by (simp add: then_act_def adds_bind)

lemma adds_discard: "adds P m \<Longrightarrow> adds P (discard m)"
  by (simp add: discard_def adds_bind adds_ret)

lemma adds_do_all: "(\<And>a. a \<in> set as \<Longrightarrow> adds P a) \<Longrightarrow> adds P (do_all as)"
  by (induction as) (simp_all add: adds_ret adds_then)

lemma adds_for_each: "(\<And>x. adds P (body x)) \<Longrightarrow> adds P (for_each xs body)"
  by (induction xs) (simp_all add: adds_ret adds_then)

lemma adds_run:
  assumes "calm P" and "P (Shell (cmd_string cmd))"
  shows "adds P (run E cmd ig sp)"
proof (rule addsI)
  fix w
  from run_world [of E cmd ig sp w] obtain pre post where
    t: "trace (snd (run E cmd ig sp w)) = trace w @ (pre @ [Shell (cmd_string cmd)] @ post)"
    and p: "list_all is_print pre" "list_all is_print post"
    by auto
  have "\<And>e. is_print e \<Longrightarrow> P e"
    using assms(1) by (auto simp: calm_def elim: is_print.elims)
  with p have "list_all P pre" "list_all P post"
    by (simp_all add: list_all_iff)
  with assms(2) have "list_all P (pre @ [Shell (cmd_string cmd)] @ post)" by simp
  with t show "\<exists>es. trace (snd (run E cmd ig sp w)) = trace w @ es \<and> list_all P es" by blast
qed

lemma adds_except:
  assumes "adds P body" and "adds P handler"
  shows "adds P (except_CalledProcessError body handler)"
proof (rule addsI)
  fix w
  obtain r w1 where b: "body w = (r, w1)" by (cases "body w")
  from addsD [OF assms(1), of w] b obtain es where es: "trace w1 = trace w @ es" "list_all P es"
    by auto
  show "\<exists>es. trace (snd (except_CalledProcessError body handler w)) = trace w @ es \<and> list_all P es"
  proof (cases "\<exists>rc argv. r = Raises (CalledProcessError rc argv)")
    case True
    then obtain rc argv where r: "r = Raises (CalledProcessError rc argv)" by blast
    from addsD [OF assms(2), of w1] obtain fs where
      fs: "trace (snd (handler w1)) = trace w1 @ fs" "list_all P fs" by blast
    have "trace (snd (except_CalledProcessError body handler w)) = trace w @ (es @ fs)
          \<and> list_all P (es @ fs)"
      using b r es fs by (simp add: except_CalledProcessError_def)
    then show ?thesis by blast
  next
    case False
    then have "except_CalledProcessError body handler w = (r, w1)"
      using b by (auto simp: except_CalledProcessError_def split: result.splits exc.splits)
    with es show ?thesis by auto
  qed
qed

lemma adds_check_call: "calm P \<Longrightarrow> adds P (check_call E argv)"
  by (rule addsI) (auto simp: check_call_def Let_def launch_def calm_def split: option.splits)

lemma adds_container_loop:
  "calm P \<Longrightarrow> P (Shell (cmd_string cmd)) \<Longrightarrow> adds P (container_loop E cmd n)"
proof (induction n)
  case 0
  then show ?case by (simp add: adds_ret)
next
  case (Suc n)
  have "adds P (container_attempt E cmd)"
    unfolding container_attempt_def
    by (intro adds_except adds_bind adds_run adds_ret adds_sleep Suc.prems)
  with Suc show ?case
    by (simp add: adds_bind adds_ret)
qed

lemma adds_wait_until_container_is_up:
  "calm P \<Longrightarrow> P (Shell (cmd_string (inspect_cmd E container))) \<Longrightarrow>
   adds P (wait_until_container_is_up E container)"
  unfolding wait_until_container_is_up_def
  by (intro adds_bind adds_container_loop) (simp_all add: adds_ret adds_raise)

lemma adds_wait_until_string_is_in_logs:
  "calm P \<Longrightarrow> adds P (wait_until_string_is_in_logs E container s)"
  by (rule addsI)
     (auto simp: wait_until_string_is_in_logs_def Let_def launch_def emit_def calm_def
           split: result.splits)

lemma adds_openshift_loop: "calm P \<Longrightarrow> adds P (openshift_loop E n)"
proof (induction n)
  case 0
  then show ?case by (simp add: adds_ret)
next
  case (Suc n)
  have "adds P (openshift_attempt E)"
    unfolding openshift_attempt_def
    by (intro adds_except adds_bind adds_check_call adds_ret adds_sleep Suc.prems)
  with Suc show ?case
    by (simp add: adds_bind adds_ret)
qed

lemma adds_wait_until_openshift_is_up: "calm P \<Longrightarrow> adds P (wait_until_openshift_is_up E)"
  unfolding wait_until_openshift_is_up_def
  by (intro adds_bind adds_print adds_openshift_loop) (simp_all add: adds_ret adds_raise)

lemma adds_update_origin_config: "calm P \<Longrightarrow> adds P update_origin_config"
  by (rule addsI)
     (auto simp: update_origin_config_def emit_def calm_def split: option.splits sum.splits)


lemma adds_do_all_Nil: "adds P (do_all [])"
  by (simp add: adds_ret)

lemma adds_do_all_Cons: "adds P a \<Longrightarrow> adds P (do_all as) \<Longrightarrow> adds P (do_all (a # as))"
  by (simp add: adds_then)

lemma adds_if: "adds P m \<Longrightarrow> adds P n \<Longrightarrow> adds P (if c then m else n)"
  by simp

lemma adds_case_option:
  "adds P n \<Longrightarrow> (\<And>x. adds P (s x)) \<Longrightarrow> adds P (case v of None \<Rightarrow> n | Some x \<Rightarrow> s x)"
  by (cases v) simp_all

lemma adds_case_prod: "(\<And>x y. adds P (f x y)) \<Longrightarrow> adds P (case v of (x, y) \<Rightarrow> f x y)"
  by (cases v) simp

lemmas adds_intros =
  adds_do_all_Nil adds_do_all_Cons adds_if adds_case_option adds_case_prod adds_bind adds_then
  adds_discard adds_for_each adds_ret adds_raise adds_print adds_sleep adds_run
  adds_wait_until_container_is_up adds_wait_until_string_is_in_logs
  adds_wait_until_openshift_is_up adds_update_origin_config

lemma calm_no_teardown: "calm (\<lambda>e. \<not> teardown e)"
  by (auto simp: calm_def teardown_def)

lemma calm_any: "calm (\<lambda>e. True)"
  by (simp add: calm_def)

lemma adds_os_up:
  "calm P \<Longrightarrow> (\<And>c. \<not> teardown (Shell c) \<Longrightarrow> P (Shell c)) \<Longrightarrow> adds P (os_up E a)"
  unfolding os_up_def
  by (intro adds_intros; simp add: teardown_def cmd_string_def oc_cluster_up_def)

lemma adds_copy_image:
  "calm P \<Longrightarrow> (\<And>c. \<not> teardown (Shell c) \<Longrightarrow> P (Shell c)) \<Longrightarrow>
   adds P (copy_image E source destination_repo)"
  unfolding copy_image_def Let_def
  by (intro adds_intros; simp add: teardown_def cmd_string_def)

lemma adds_cleanup: "adds (\<lambda>e. True) (cleanup E)"
  unfolding cleanup_def down_def os_down_def
  by (intro adds_intros calm_any; simp)


lemma bind_act_commands:
  assumes "\<And>x. adds (\<lambda>e. True) (f x)"
  shows "\<exists>cs. shell_commands (trace (snd (bind_act m f w)))
               = shell_commands (trace (snd (m w))) @ cs"
  using bind_act_trace [of "\<lambda>e. True" f m w, OF assms]
  by (auto simp: shell_commands_append)

lemma then_act_commands:
  "adds (\<lambda>e. True) n \<Longrightarrow>
   \<exists>cs. shell_commands (trace (snd (then_act m n w))) = shell_commands (trace (snd (m w))) @ cs"
  unfolding then_act_def by (rule bind_act_commands)

lemma then_act_ret: "then_act (ret x) n w = n w"
  by (simp add: then_act_def bind_act_def ret_def)

lemma then_act_print: "then_act (print s) n w = n (emit (Print s) w)"
  by (simp add: then_act_def bind_act_def print_def)

lemma snd_discard: "snd (discard m w) = snd (m w)"
  by (cases "m w") (auto simp: discard_def bind_act_def ret_def split: result.splits)

lemma fst_discard_Returns: "fst (m w) = Returns x \<Longrightarrow> discard m w = (Returns (), snd (m w))"
  by (cases "m w") (auto simp: discard_def bind_act_def ret_def)

text \<open>The statements of \<^verbatim>\<open>up\<close> from the cluster start on add events of any calm kind
  that admits every command but the teardown commands.\<close>

lemma up_shape:
  assumes "calm P" and "\<And>c. \<not> teardown (Shell c) \<Longrightarrow> P (Shell c)"
  shows "\<exists>rest. up E a =
           do_all ((if \<not> no_cleanup a then cleanup E else ret ())
                   # print ''osbs-box: up''
                   # (if \<not> path_exists E ''ssl'' then
                        do_all [print ''Generating certificates'',
                                discard (run E (CmdList [''./generate-certs'']) False True)]
                      else print ''Reusing existing certificates'')
                   # os_up E a # rest)
         \<and> adds P (do_all rest)"
  unfolding up_def
  apply (intro exI conjI)
   apply (rule refl)
  apply (intro adds_intros assms adds_copy_image;
         simp add: teardown_def cmd_string_def inspect_cmd_def)
  done

lemma os_up_shape:
  "\<exists>K. os_up E a = bind_act (run E (oc_cluster_up a) False True) K
       \<and> (\<forall>x. adds (\<lambda>e. True) (K x))"
  unfolding os_up_def
  apply (intro exI conjI allI)
   apply (rule refl)
  apply (intro adds_intros calm_any; simp)
  done

lemma os_up_commands:
  "\<exists>cs. shell_commands (trace (snd (os_up E a w)))
       = shell_commands (trace w) @ cmd_string (oc_cluster_up a) # cs"
proof -
  from os_up_shape [of E a] obtain K where
    K: "os_up E a = bind_act (run E (oc_cluster_up a) False True) K"
       "\<And>x. adds (\<lambda>e. True) (K x)"
    by blast
  from bind_act_commands [of K "run E (oc_cluster_up a) False True" w, OF K(2)]
  show ?thesis
    unfolding K(1) by (auto simp: run_shell_commands)
qed


lemma generate_certs_commands:
  "shell_commands (trace (snd (do_all [print ''Generating certificates'',
        discard (run E (CmdList [''./generate-certs'']) False True)] w)))
     = shell_commands (trace w) @ [''./generate-certs'']"
proof -
  let ?w1 = "emit (Print ''Generating certificates'') w"
  let ?r = "run E (CmdList [''./generate-certs'']) False True"
  have "\<exists>cs. shell_commands (trace (snd (then_act (discard ?r) (ret ()) ?w1)))
          = shell_commands (trace (snd (discard ?r ?w1))) @ cs
        \<and> cs = []"
    by (cases "?r ?w1")
       (auto simp: then_act_def bind_act_def discard_def ret_def split: result.splits)
  then show ?thesis
    by (simp add: then_act_print snd_discard run_shell_commands cmd_string_def)
qed

lemma generate_certs_ok:
  assumes "ends_with (procs E (launched w)) 0"
  shows "\<exists>w1. do_all [print ''Generating certificates'',
              discard (run E (CmdList [''./generate-certs'']) False True)] w = (Returns (), w1)"
proof -
  let ?w1 = "emit (Print ''Generating certificates'') w"
  let ?r = "run E (CmdList [''./generate-certs'']) False True"
  have "ends_with (procs E (launched ?w1)) 0" using assms by simp
  from run_result [OF this, of "CmdList [''./generate-certs'']" False True]
  obtain x where "fst (?r ?w1) = Returns x" by auto
  then have "discard ?r ?w1 = (Returns (), snd (?r ?w1))" by (rule fst_discard_Returns)
  then show ?thesis
    by (simp add: then_act_def bind_act_def ret_def print_def)
qed

lemma cleanup_commands:
  "\<exists>cs. shell_commands (trace (snd (cleanup E w)))
        = shell_commands (trace w) @ ''docker-compose down -v'' # cs"
proof -
  let ?w1 = "emit (Print ''osbs-box: down'') w"
  let ?r = "discard (run E (CmdList ([''docker-compose'', ''down''] @ [''-v''])) True True)"
  have "adds (\<lambda>e. True) (do_all [os_down E])"
    unfolding os_down_def by (intro adds_intros calm_any; simp)
  from then_act_commands [OF this, of ?r ?w1]
  show ?thesis
    by (auto simp: cleanup_def down_def then_act_print snd_discard run_shell_commands
          cmd_string_def)
qed

text \<open>
  C8 (amended). With \<^verbatim>\<open>--no-cleanup\<close>, \<^verbatim>\<open>up\<close> adds no teardown call to the trace,
  whatever its outcome: neither \<^verbatim>\<open>docker-compose down\<close>, with or without \<^verbatim>\<open>-v\<close>, nor
  \<^verbatim>\<open>oc cluster down\<close>. Its first command is the cluster start when the directory
  \<^verbatim>\<open>ssl\<close> exists; otherwise it is \<^verbatim>\<open>./generate-certs\<close>, and the cluster start follows
  when that command ends with status 0, the lines of its output being well-formed UTF-8
  (\<open>ends_with\<close>). Without the flag, the first command is the \<^verbatim>\<open>docker-compose down -v\<close>
  of cleanup, before everything else.
\<close>

theorem up_no_cleanup:
  "(no_cleanup a \<longrightarrow> adds (\<lambda>e. \<not> teardown e) (up E a))
   \<and> (no_cleanup a \<and> path_exists E ''ssl'' \<longrightarrow>
        (\<exists>cs. shell_commands (trace (snd (up E a w)))
               = shell_commands (trace w) @ cmd_string (oc_cluster_up a) # cs))
   \<and> (no_cleanup a \<and> \<not> path_exists E ''ssl'' \<longrightarrow>
        (\<exists>cs. shell_commands (trace (snd (up E a w)))
               = shell_commands (trace w) @ ''./generate-certs'' # cs
             \<and> (ends_with (procs E (launched w)) 0 \<longrightarrow>
                  (\<exists>cs'. cs = cmd_string (oc_cluster_up a) # cs'))))
   \<and> (\<not> no_cleanup a \<longrightarrow>
        (\<exists>cs. shell_commands (trace (snd (up E a w)))
               = shell_commands (trace w) @ ''docker-compose down -v'' # cs))"
proof -
  let ?certs = "do_all [print ''Generating certificates'',
                        discard (run E (CmdList [''./generate-certs'']) False True)]"
  let ?X3 = "if \<not> path_exists E ''ssl'' then ?certs else print ''Reusing existing certificates''"
  from up_shape [of "\<lambda>e. \<not> teardown e" E a, OF calm_no_teardown]
  obtain rest where rest: "up E a =
      do_all ((if \<not> no_cleanup a then cleanup E else ret ()) # print ''osbs-box: up'' # ?X3
              # os_up E a # rest)"
    and quiet: "adds (\<lambda>e. \<not> teardown e) (do_all rest)"
    by auto
  from up_shape [of "\<lambda>e. True" E a, OF calm_any]
  obtain rest' where rest': "up E a =
      do_all ((if \<not> no_cleanup a then cleanup E else ret ()) # print ''osbs-box: up'' # ?X3
              # os_up E a # rest')"
    and any: "adds (\<lambda>e. True) (do_all rest')"
    by auto
  let ?N = "then_act (os_up E a) (do_all rest')"
  have os_any: "adds (\<lambda>e. True) (os_up E a)"
    by (rule adds_os_up [OF calm_any]) simp
  have N_any: "adds (\<lambda>e. True) ?N"
    by (rule adds_then [OF os_any any])
  have N_commands: "\<exists>cs. shell_commands (trace (snd (?N v)))
                       = shell_commands (trace v) @ cmd_string (oc_cluster_up a) # cs" for v
  proof -
    from then_act_commands [OF any, of "os_up E a" v] os_up_commands [of E a v]
    show ?thesis by auto
  qed
  have one: "adds (\<lambda>e. \<not> teardown e) (up E a)" if "no_cleanup a"
  proof -
    have "up E a = do_all (ret () # print ''osbs-box: up'' # ?X3 # os_up E a # rest)"
      unfolding rest by (simp only: that not_True_eq_False if_False)
    then show ?thesis
      using quiet
      by (simp only:)
         (intro adds_intros adds_os_up calm_no_teardown;
          simp add: teardown_def cmd_string_def)
  qed
  have two: "\<exists>cs. shell_commands (trace (snd (up E a w)))
               = shell_commands (trace w) @ cmd_string (oc_cluster_up a) # cs"
    if "no_cleanup a \<and> path_exists E ''ssl''"
  proof -
    have "up E a w = ?N (emit (Print ''Reusing existing certificates'')
                           (emit (Print ''osbs-box: up'') w))"
      unfolding rest' using that by (simp add: then_act_ret then_act_print)
    with N_commands [of "emit (Print ''Reusing existing certificates'')
                           (emit (Print ''osbs-box: up'') w)"]
    show ?thesis by simp
  qed
  have three: "\<exists>cs. shell_commands (trace (snd (up E a w)))
               = shell_commands (trace w) @ ''./generate-certs'' # cs
             \<and> (ends_with (procs E (launched w)) 0 \<longrightarrow>
                  (\<exists>cs'. cs = cmd_string (oc_cluster_up a) # cs'))"
    if "no_cleanup a \<and> \<not> path_exists E ''ssl''"
  proof -
    let ?w1 = "emit (Print ''osbs-box: up'') w"
    have eq: "up E a w = then_act ?certs ?N ?w1"
      unfolding rest' using that by (simp add: then_act_ret then_act_print)
    show ?thesis
    proof (cases "ends_with (procs E (launched w)) 0")
      case True
      then have "ends_with (procs E (launched ?w1)) 0" by simp
      from generate_certs_ok [OF this] obtain w2 where w2: "?certs ?w1 = (Returns (), w2)"
        by blast
      then have "up E a w = ?N w2"
        unfolding eq by (simp add: then_act_def bind_act_def)
      moreover have "shell_commands (trace w2) = shell_commands (trace w) @ [''./generate-certs'']"
        using generate_certs_commands [of E ?w1] w2 by simp
      ultimately show ?thesis
        using N_commands [of w2] by auto
    next
      case False
      from then_act_commands [OF N_any, of ?certs ?w1]
      show ?thesis
        unfolding eq using False generate_certs_commands [of E ?w1] by auto
    qed
  qed
  have four: "\<exists>cs. shell_commands (trace (snd (up E a w)))
               = shell_commands (trace w) @ ''docker-compose down -v'' # cs"
    if "\<not> no_cleanup a"
  proof -
    let ?M = "do_all (print ''osbs-box: up'' # ?X3 # os_up E a # rest')"
    have "adds (\<lambda>e. True) ?M"
      using any by (intro adds_intros os_any calm_any; simp)
    from then_act_commands [OF this, of "cleanup E" w] cleanup_commands [of E w]
    show ?thesis
      unfolding rest' using that by auto
  qed
  from one two three four show ?thesis by blast
qed

theorem up_no_cleanup_witness:
  "list_all (\<lambda>e. \<not> teardown e) (trace (snd (up (env_with first_ok True) args0 world0)))
   \<and> (\<exists>cs. shell_commands (trace (snd (up (env_with first_ok True) args0 world0)))
            = ''oc cluster up --version v3.6.0 --image openshift/origin'' # cs)
   \<and> (\<exists>cs. shell_commands (trace (snd (up (env_with first_ok False) args0 world0)))
            = ''./generate-certs'' # ''oc cluster up --version v3.6.0 --image openshift/origin'' # cs)
   \<and> (\<exists>cs. shell_commands (trace (snd (up (env_with first_ok True)
                                              (args0\<lparr>no_cleanup := False\<rparr>) world0)))
            = ''docker-compose down -v'' # cs)"
proof -
  have c: "cmd_string (oc_cluster_up args0) = ''oc cluster up --version v3.6.0 --image openshift/origin''"
    by (simp add: cmd_string_def oc_cluster_up_def args0_def if_given_def)
  have c': "cmd_string (oc_cluster_up (args0\<lparr>no_cleanup := False\<rparr>))
              = ''oc cluster up --version v3.6.0 --image openshift/origin''"
    by (simp add: cmd_string_def oc_cluster_up_def args0_def if_given_def)
  have n: "no_cleanup args0" "\<not> no_cleanup (args0\<lparr>no_cleanup := False\<rparr>)"
    by (simp_all add: args0_def)
  have p: "path_exists (env_with first_ok True) ''ssl''"
    "\<not> path_exists (env_with first_ok False) ''ssl''"
    by (simp_all add: env_with_def)
  have e: "ends_with (procs (env_with first_ok False) (launched world0)) 0"
    by (simp add: env_with_def world0_def ends_with_def decodable_def proc_exits_def)
  have t: "trace world0 = []" by (simp add: world0_def)
  from up_no_cleanup [of args0 "env_with first_ok True" world0] n(1)
  have "adds (\<lambda>e. \<not> teardown e) (up (env_with first_ok True) args0)" by blast
  from addsD [OF this, of world0]
  have one: "list_all (\<lambda>e. \<not> teardown e) (trace (snd (up (env_with first_ok True) args0 world0)))"
    by (auto simp: t)
  from up_no_cleanup [of args0 "env_with first_ok True" world0] n(1) p(1)
  have two: "\<exists>cs. shell_commands (trace (snd (up (env_with first_ok True) args0 world0)))
            = ''oc cluster up --version v3.6.0 --image openshift/origin'' # cs"
    by (simp add: t c)
  from up_no_cleanup [of args0 "env_with first_ok False" world0] n(1) p(2) e
  have three: "\<exists>cs. shell_commands (trace (snd (up (env_with first_ok False) args0 world0)))
            = ''./generate-certs'' # ''oc cluster up --version v3.6.0 --image openshift/origin'' # cs"
    by (auto simp: t c)
  from up_no_cleanup [of "args0\<lparr>no_cleanup := False\<rparr>" "env_with first_ok True" world0] n(2)
  have four: "\<exists>cs. shell_commands (trace (snd (up (env_with first_ok True)
                                              (args0\<lparr>no_cleanup := False\<rparr>) world0)))
            = ''docker-compose down -v'' # cs"
    by (simp add: t)
  from one two three four show ?thesis by blast
qed

text \<open>
  C8, as stated, fails: with \<^verbatim>\<open>--no-cleanup\<close> and no directory \<^verbatim>\<open>ssl\<close>, \<^verbatim>\<open>up\<close> does not
  go directly to the cluster start. It runs \<^verbatim>\<open>./generate-certs\<close> first; when that command
  exits with status 1 the cluster is not started at all, and when it exits with status 0
  the cluster start is the second command.
\<close>

theorem up_generates_certificates_first:
  "no_cleanup args0
   \<and> shell_commands (trace (snd (up (env_with (\<lambda>k. proc_exits [] 1) False) args0 world0)))
       = [''./generate-certs'']
   \<and> fst (up (env_with (\<lambda>k. proc_exits [] 1) False) args0 world0)
       = Raises (RuntimeError [''Command ./generate-certs failed with exitcode 1''])
   \<and> shell_commands (trace (snd (up (env_with first_ok False) args0 world0)))
       = [''./generate-certs'', ''oc cluster up --version v3.6.0 --image openshift/origin'']"
  by code_simp

end
